theory Spec2Isabelle
  imports Complex_Main "HOL-Library.AList"
begin

section \<open>Process-tree termination (maths/multiprocessing/mp_utils.py)\<close>

text \<open>
  \<^verbatim>\<open>
  def terminate_tree(process: Process):
      try:
          pid = process.pid
          for child in psutil.Process(pid).children(recursive=True):
              child.terminate()
      except psutil.NoSuchProcess:
          pass
      finally:
          process.terminate()
  \<close>
  The function talks to the operating system through two libraries that are not part of
  the repository: \<open>psutil\<close> (enumeration of descendants, termination of a descendant) and
  \<open>multiprocess\<close> (the worker handle). Their answers are parameters of the model; the
  effect of the function is the ordered list of termination requests it issues, together
  with the exception (if any) that leaves it.
\<close>

type_synonym pid = nat

text \<open>
  The exceptions of \<open>psutil\<close>: \<open>NoSuchProcess\<close> is the one the source catches,
  \<open>AccessDenied\<close> stands for every other one (it is not caught and leaves the function).
\<close>

datatype psutil_error = NoSuchProcess | AccessDenied

text \<open>
  The operating system as \<open>psutil\<close> shows it during one call.
  \<^item> \<open>children_recursive p\<close> is the outcome of
    \<^verbatim>\<open>psutil.Process(p).children(recursive=True)\<close>: an exception (\<open>NoSuchProcess\<close> when no
    process has the id \<open>p\<close>) or the list of discovered descendants, in the order of iteration.
  \<^item> \<open>child_terminate c\<close> is the outcome of \<^verbatim>\<open>child.terminate()\<close> at the moment the
    loop reaches \<open>c\<close>: \<open>None\<close> when the request is sent, \<open>Some NoSuchProcess\<close> when \<open>c\<close>
    has exited since the enumeration.
\<close>

record psutil =
  children_recursive :: "pid \<Rightarrow> psutil_error + pid list"
  child_terminate :: "pid \<Rightarrow> psutil_error option"

text \<open>
  The worker handle (\<open>multiprocess.Process\<close>) of a worker that has been started, so that
  it has a process id; only its \<open>pid\<close> is read.
\<close>

record process =
  pid :: pid

text \<open>A termination request that has been issued.\<close>

datatype request =
    ChildTerminate pid     \<comment> \<open>\<^verbatim>\<open>child.terminate()\<close> went through for this descendant\<close>
  | ProcessTerminate pid   \<comment> \<open>\<^verbatim>\<open>process.terminate()\<close> on the handle\<close>

text \<open>
  The \<^verbatim>\<open>for\<close> loop: the requests sent, and the exception that ended the loop early.
  A \<^verbatim>\<open>child.terminate()\<close> that raises sends nothing and ends the loop.
\<close>

fun terminate_children ::
  "(pid \<Rightarrow> psutil_error option) \<Rightarrow> pid list \<Rightarrow> request list \<times> psutil_error option" where
  "terminate_children term [] = ([], None)"
| "terminate_children term (child # rest) =
     (case term child of
        Some e \<Rightarrow> ([], Some e)
      | None \<Rightarrow>
          (case terminate_children term rest of
             (sent, raised) \<Rightarrow> (ChildTerminate child # sent, raised)))"

text \<open>The body of the \<^verbatim>\<open>try\<close> block.\<close>

definition try_body :: "psutil \<Rightarrow> process \<Rightarrow> request list \<times> psutil_error option" where
  "try_body ps proc =
     (case children_recursive ps (pid proc) of
        Inl e \<Rightarrow> ([], Some e)
      | Inr children \<Rightarrow> terminate_children (child_terminate ps) children)"

text \<open>\<^verbatim>\<open>except psutil.NoSuchProcess: pass\<close>: that exception is dropped, any other stays.\<close>

fun except_NoSuchProcess :: "psutil_error option \<Rightarrow> psutil_error option" where
  "except_NoSuchProcess (Some NoSuchProcess) = None"
| "except_NoSuchProcess raised = raised"

text \<open>
  The whole function. The \<^verbatim>\<open>finally\<close> clause runs after the \<^verbatim>\<open>try\<close> block and the
  handler in every case; \<open>multiprocess\<close>'s \<^verbatim>\<open>Process.terminate()\<close> sends the signal and
  does not wait, and ignores a process that is already gone. The result is the list of
  requests in the order they were issued and the exception that propagates to the caller
  (\<open>None\<close>: the function returns).
\<close>

definition terminate_tree :: "psutil \<Rightarrow> process \<Rightarrow> request list \<times> psutil_error option" where
  "terminate_tree ps proc =
     (case try_body ps proc of
        (sent, raised) \<Rightarrow>
          (sent @ [ProcessTerminate (pid proc)], except_NoSuchProcess raised))"

section \<open>Result handlers of the ridge-extraction presenter (gui/windows/ridgeextraction/REPresenter.py)\<close>

text \<open>
  Exceptions of the Python code outside \<open>psutil\<close>. \<open>AttributeError\<close> and \<open>KeyError\<close> are
  raised by the interpreter (an attribute of \<^verbatim>\<open>None\<close>, a missing dictionary key);
  \<open>LibraryError\<close> stands for whatever an external numerical routine raises.
\<close>

datatype py_error = AttributeError | KeyError | LibraryError

text \<open>A frequency interval \<^verbatim>\<open>(fmin, fmax)\<close>, used as a dictionary key.\<close>

type_synonym interval = "real \<times> real"

text \<open>
  Modelled from the spec: class \<^verbatim>\<open>TFOutputData\<close> (maths/signals/TFOutputData.py) is not
  under src/. It is the per-signal accumulator of section 4.3 (``output data aggregation'');
  the fields are those the handlers assign. Ridge data and band data are dictionaries
  keyed by interval; arrays are opaque values of type \<open>'a\<close>.
\<close>

record 'a TFOutputData =
  times_d :: 'a
  transform :: 'a
  ampl :: 'a
  freq :: 'a
  powers :: 'a
  avg_ampl :: 'a
  avg_pow :: 'a
  ridge_data :: "(interval \<times> ('a \<times> 'a \<times> 'a)) list"
  band_data :: "(interval \<times> ('a \<times> 'a \<times> 'a)) list"

text \<open>
  Modelled from the spec: \<^verbatim>\<open>TFOutputData.set_ridge_data\<close>, \<^verbatim>\<open>has_ridge_data\<close>,
  \<^verbatim>\<open>set_band_data\<close> and \<^verbatim>\<open>has_band_data\<close> are not under src/. Storing the data of
  an interval is what marks the item as completed (section 4.3, ``mark the WorkItem's name
  as completed in the batch''); an item counts as completed when data of some interval has
  been stored.
\<close>

definition set_ridge_data ::
  "'a TFOutputData \<Rightarrow> interval \<Rightarrow> 'a \<Rightarrow> 'a \<Rightarrow> 'a \<Rightarrow> 'a TFOutputData" where
  "set_ridge_data d interval filtered frequency phase =
     d\<lparr>ridge_data := AList.update interval (filtered, frequency, phase) (ridge_data d)\<rparr>"

definition has_ridge_data :: "'a TFOutputData \<Rightarrow> bool" where
  "has_ridge_data d = (ridge_data d \<noteq> [])"

definition set_band_data ::
  "'a TFOutputData \<Rightarrow> interval \<Rightarrow> 'a \<Rightarrow> 'a \<Rightarrow> 'a \<Rightarrow> 'a TFOutputData" where
  "set_band_data d interval bands phase amp =
     d\<lparr>band_data := AList.update interval (bands, phase, amp) (band_data d)\<rparr>"

definition has_band_data :: "'a TFOutputData \<Rightarrow> bool" where
  "has_band_data d = (band_data d \<noteq> [])"

text \<open>
  Modelled from the spec: class \<^verbatim>\<open>TimeSeries\<close> (maths/signals/TimeSeries.py) is not under
  src/. It is the work item of section 3: identity = unique name, payload = the time series;
  the fields are the attributes the sources read (\<^verbatim>\<open>name\<close>, \<^verbatim>\<open>signal\<close>,
  \<^verbatim>\<open>frequency\<close>, \<^verbatim>\<open>output_data\<close>).
\<close>

record 'a TimeSeries =
  name :: string
  signal :: 'a
  frequency :: real
  output_data :: "'a TFOutputData"

text \<open>
  Modelled from the spec: class \<^verbatim>\<open>Signals\<close> (a list of \<^verbatim>\<open>TimeSeries\<close>) and its method
  \<^verbatim>\<open>get(name)\<close> are not under src/. Section 4.3: ``extract correlation key, look up the
  matching WorkItem''. The lookup returns the first signal with the name, \<^verbatim>\<open>None\<close> when
  there is none.
\<close>

definition Signals_get :: "'a TimeSeries list \<Rightarrow> string \<Rightarrow> 'a TimeSeries option" where
  "Signals_get signals n = find (\<lambda>s. name s = n) signals"

text \<open>
  The handlers mutate the object that \<^verbatim>\<open>get\<close> returned, which is an element of the list.
  With explicit state this is a write-back: the first signal with the name is replaced by
  its updated version.
\<close>

fun write_back :: "'a TimeSeries list \<Rightarrow> string \<Rightarrow> 'a TimeSeries \<Rightarrow> 'a TimeSeries list" where
  "write_back [] n s' = []"
| "write_back (s # signals) n s' =
     (if name s = n then s' # signals else s # write_back signals n s')"

text \<open>
  The presenter. \<open>signals\<close> is \<^verbatim>\<open>self.signals\<close>. The batch-completion callbacks
  \<^verbatim>\<open>on_all_ridge_completed\<close> and \<^verbatim>\<open>on_all_filter_completed\<close> only print and plot; what
  is kept of them is how many times each has been invoked.
\<close>

record 'a REPresenter =
  signals :: "'a TimeSeries list"
  all_ridge_completed_calls :: nat
  all_filter_completed_calls :: nat

definition on_all_ridge_completed :: "'a REPresenter \<Rightarrow> 'a REPresenter" where
  "on_all_ridge_completed self =
     self\<lparr>all_ridge_completed_calls := Suc (all_ridge_completed_calls self)\<rparr>"

definition on_all_filter_completed :: "'a REPresenter \<Rightarrow> 'a REPresenter" where
  "on_all_filter_completed self =
     self\<lparr>all_filter_completed_calls := Suc (all_filter_completed_calls self)\<rparr>"

text \<open>
  The result tuple of a ridge-extraction worker, in the order of the parameters of
  \<^verbatim>\<open>on_ridge_completed\<close>: name, times, freq, values, ampl, powers, avg_ampl, avg_pow,
  interval, filtered_signal, iphi, ifreq.
\<close>

record 'a ridge_result =
  r_name :: string
  r_times :: 'a
  r_freq :: 'a
  r_values :: 'a
  r_ampl :: 'a
  r_powers :: 'a
  r_avg_ampl :: 'a
  r_avg_pow :: 'a
  r_interval :: interval
  r_filtered_signal :: 'a
  r_iphi :: 'a
  r_ifreq :: 'a

text \<open>
  \<^verbatim>\<open>
  def on_ridge_completed(self, name, times, freq, values, ampl, powers, avg_ampl, avg_pow,
                         interval, filtered_signal, iphi, ifreq):
      sig = self.signals.get(name)
      d: TFOutputData = sig.output_data
      d.set_ridge_data(interval, filtered_signal, ifreq, iphi)
      d.transform = values
      d.ampl = ampl
      d.powers = powers
      d.avg_ampl = avg_ampl
      d.avg_pow = avg_pow
      d.freq = freq
      d.times = times
      if all([i.output_data.has_ridge_data() for i in self.signals]):
          self.on_all_ridge_completed()
  \<close>
  The result is the exception raised (\<open>None\<close>: the handler returns) and the presenter as
  the call leaves it. When no signal has the name, \<^verbatim>\<open>sig\<close> is \<^verbatim>\<open>None\<close> and
  \<^verbatim>\<open>sig.output_data\<close> raises \<open>AttributeError\<close> before anything is changed.
\<close>

definition on_ridge_completed ::
  "'a REPresenter \<Rightarrow> 'a ridge_result \<Rightarrow> py_error option \<times> 'a REPresenter" where
  "on_ridge_completed self r =
     (case Signals_get (signals self) (r_name r) of
        None \<Rightarrow> (Some AttributeError, self)
      | Some sig \<Rightarrow>
          (let d = output_data sig;
               d = set_ridge_data d (r_interval r) (r_filtered_signal r) (r_ifreq r) (r_iphi r);
               d = d\<lparr>transform := r_values r\<rparr>;
               d = d\<lparr>ampl := r_ampl r\<rparr>;
               d = d\<lparr>powers := r_powers r\<rparr>;
               d = d\<lparr>avg_ampl := r_avg_ampl r\<rparr>;
               d = d\<lparr>avg_pow := r_avg_pow r\<rparr>;
               d = d\<lparr>freq := r_freq r\<rparr>;
               d = d\<lparr>times_d := r_times r\<rparr>;
               self = self\<lparr>signals :=
                        write_back (signals self) (r_name r) (sig\<lparr>output_data := d\<rparr>)\<rparr>
           in if list_all (\<lambda>i. has_ridge_data (output_data i)) (signals self)
              then (None, on_all_ridge_completed self)
              else (None, self)))"

text \<open>
  The result tuple of a band-pass filter worker, in the order of the parameters of
  \<^verbatim>\<open>on_filter_completed\<close>: name, bands, phase, amp, interval.
\<close>

record 'a filter_result =
  f_name :: string
  f_bands :: 'a
  f_phase :: 'a
  f_amp :: 'a
  f_interval :: interval

text \<open>
  \<^verbatim>\<open>
  def on_filter_completed(self, name, bands, phase, amp, interval):
      d: TFOutputData = self.signals.get(name)
      d.set_band_data(interval, bands, phase, amp)
      if all([i.output_data.has_band_data() for i in self.signals]):
          self.on_all_filter_completed()
  \<close>
  Here \<^verbatim>\<open>d\<close> is bound to the signal that \<^verbatim>\<open>get\<close> returns, not to its
  \<^verbatim>\<open>output_data\<close> as in \<^verbatim>\<open>on_ridge_completed\<close>, so \<^verbatim>\<open>set_band_data\<close> is looked up on
  class \<^verbatim>\<open>TimeSeries\<close>, which is not under src/. That method is the parameter
  \<open>TimeSeries_set_band_data\<close>: \<open>None\<close> when the class has no such attribute (the call
  raises \<open>AttributeError\<close>), \<open>Some m\<close> when it has one, \<open>m\<close> giving the signal as the call
  leaves it. When no signal has the name, \<^verbatim>\<open>d\<close> is \<^verbatim>\<open>None\<close> and the call raises
  \<open>AttributeError\<close> as well.
\<close>

definition on_filter_completed ::
  "('a TimeSeries \<Rightarrow> interval \<Rightarrow> 'a \<Rightarrow> 'a \<Rightarrow> 'a \<Rightarrow> 'a TimeSeries) option \<Rightarrow>
   'a REPresenter \<Rightarrow> 'a filter_result \<Rightarrow> py_error option \<times> 'a REPresenter" where
  "on_filter_completed TimeSeries_set_band_data self r =
     (case Signals_get (signals self) (f_name r) of
        None \<Rightarrow> (Some AttributeError, self)
      | Some d \<Rightarrow>
          (case TimeSeries_set_band_data of
             None \<Rightarrow> (Some AttributeError, self)
           | Some m \<Rightarrow>
               (let d = m d (f_interval r) (f_bands r) (f_phase r) (f_amp r);
                    self = self\<lparr>signals := write_back (signals self) (f_name r) d\<rparr>
                in if list_all (\<lambda>i. has_band_data (output_data i)) (signals self)
                   then (None, on_all_filter_completed self)
                   else (None, self))))"

text \<open>
  Modelled from the spec: the loop that takes result tuples off the queue and calls the
  registered handler (\<^verbatim>\<open>mp_handler\<close>) is not under src/. Section 4.3: ``For each
  ResultTuple received: [...] invoke \<^verbatim>\<open>on_item(result_tuple)\<close>''. A delivery is the handler
  applied to each result in the order of arrival; an exception raised by the handler
  ends it.
\<close>

fun deliver ::
  "('s \<Rightarrow> 'r \<Rightarrow> py_error option \<times> 's) \<Rightarrow> 's \<Rightarrow> 'r list \<Rightarrow> py_error option \<times> 's" where
  "deliver on_item self [] = (None, self)"
| "deliver on_item self (r # rs) =
     (case on_item self r of
        (Some e, self') \<Rightarrow> (Some e, self')
      | (None, self') \<Rightarrow> deliver on_item self' rs)"

section \<open>Compute functions of the workers (maths/algorithms/multiprocessing)\<close>

text \<open>
  A result tuple is an ordered, heterogeneous sequence: strings, numbers and opaque arrays
  (type \<open>'a\<close>). The result queue holds the tuples in the order they were put.
\<close>

datatype 'a element = Str string | Num real | Val 'a

type_synonym 'a result_tuple = "'a element list"

type_synonym 'a queue = "'a result_tuple list"

definition Queue_put :: "'a queue \<Rightarrow> 'a result_tuple \<Rightarrow> 'a queue" where
  "Queue_put queue t = queue @ [t]"

text \<open>
  Modelled from the spec: class \<^verbatim>\<open>ParamSet\<close> (gui/windows/bayesian/ParamSet.py) is not under
  src/. It is the parameter record of section 3, ``a flat structure of named numeric/string
  fields''; the fields are the attributes the compute functions read. Python numbers are
  reals here, the two frequency ranges are sequences of numbers.
\<close>

record ParamSet =
  freq_range1 :: "real list"
  freq_range2 :: "real list"
  window :: real
  propagation_const :: real
  overlap :: real
  order :: real
  surr_count :: real
  confidence_level :: real

text \<open>
  The values \<^verbatim>\<open>_dynamic_bayesian_inference\<close> has computed when it reaches its
  \<^verbatim>\<open>queue.put\<close>, and the arrays \<^verbatim>\<open>_biphase\<close> has computed when it reaches its
  \<^verbatim>\<open>return\<close>.
\<close>

record 'a bayes_values =
  tm :: 'a
  p1 :: 'a
  p2 :: 'a
  cpl1 :: 'a
  cpl2 :: 'a
  cf1 :: 'a
  cf2 :: 'a
  mcf1 :: 'a
  mcf2 :: 'a
  surr_cpl1 :: 'a
  surr_cpl2 :: 'a

record 'a biphase_values =
  biamp1 :: 'a
  biphase1 :: 'a
  biamp2 :: 'a
  biphase2 :: 'a
  biamp3 :: 'a
  biphase3 :: 'a
  biamp4 :: 'a
  biphase4 :: 'a

text \<open>
  Modelled from the spec: class \<^verbatim>\<open>BAParams\<close> (maths/params/BAParams.py) is not under src/.
  It is a parameter record of section 3; the fields are the attributes
  \<^verbatim>\<open>_bispectrum_analysis\<close> reads (\<^verbatim>\<open>fs\<close>, \<^verbatim>\<open>preprocess\<close>, \<^verbatim>\<open>surr_count\<close>, \<^verbatim>\<open>nv\<close>,
  \<^verbatim>\<open>fmax\<close>, \<^verbatim>\<open>fmin\<close>, \<^verbatim>\<open>f0\<close>), prefixed to keep them apart from those of
  \<^verbatim>\<open>ParamSet\<close>; an optional one is \<^verbatim>\<open>None\<close> or a number.
\<close>

record BAParams =
  ba_fs :: real
  ba_preprocess :: bool
  ba_surr_count :: "real option"
  ba_nv :: real
  ba_fmax :: "real option"
  ba_fmin :: "real option"
  ba_f0 :: "real option"

text \<open>
  The values \<^verbatim>\<open>_bispectrum_analysis\<close> has computed when it reaches its \<^verbatim>\<open>return\<close>
  (\<open>opt_out\<close> is the dictionary \<^verbatim>\<open>opt\<close> that the MATLAB routine returned).
\<close>

record 'a bispectrum_values =
  freq_out :: 'a
  amp_wt1 :: 'a
  pow_wt1 :: 'a
  avg_amp_wt1 :: 'a
  avg_pow_wt1 :: 'a
  amp_wt2 :: 'a
  pow_wt2 :: 'a
  avg_amp_wt2 :: 'a
  avg_pow_wt2 :: 'a
  bispxxx :: 'a
  bispppp :: 'a
  bispxpp :: 'a
  bisppxx :: 'a
  surrxxx :: 'a
  surrppp :: 'a
  surrxpp :: 'a
  surrpxx :: 'a
  opt_out :: 'a

text \<open>A Python dictionary with string keys, such as the parameter \<^verbatim>\<open>opt\<close> of \<^verbatim>\<open>_biphase\<close>.\<close>

type_synonym 'a dict = "string \<rightharpoonup> 'a"

text \<open>
  The numerical routines the compute functions call: the packaged MATLAB runtime, numpy
  and scipy, and the repository's own numerical modules, none of which is under src/. They
  are parameters of the model; each may raise instead of returning.
  \<^item> \<open>initialize\<close>: \<^verbatim>\<open>mp_utils.setup_matlab_runtime()\<close>, the imports of the packaged
    libraries and \<^verbatim>\<open>full_bayesian.initialize()\<close>; the exception raised, if any.
  \<^item> \<open>tolist x\<close>: \<^verbatim>\<open>x.tolist()\<close>. \<open>matlab_double x\<close>: \<^verbatim>\<open>matlab.double(x)\<close>;
    \<open>matlab_double_floats\<close> is the same on a list of Python floats.
  \<^item> \<open>complexes x\<close>: \<^verbatim>\<open>[complex(i) for i in x]\<close>, a complex number being the pair of its
    real and imaginary part.
  \<^item> \<open>full_bayesian sig1 sig2 args\<close>: \<^verbatim>\<open>package.full_bayesian(sig1, sig2, *args)\<close>, the
    sequence of its results.
  \<^item> \<open>bayes_numerics signal1 signal2 params\<close>: lines 60 to 142 of bayesian_inference.py
    (band-pass filtering, Hilbert transform, Bayesian inference and surrogates on
    floating-point arrays), which read \<open>params\<close> and assign the local variables that the
    final \<^verbatim>\<open>queue.put\<close> sends.
  \<^item> \<open>biphase_numerics sig1list sig2list fs f0 fr opt\<close>: lines 87 to 109 of
    bispectrum_analysis.py (four calls of \<^verbatim>\<open>biphase_wav_new.calculate\<close>, conversion to
    numpy, reshaping), which assign the eight arrays of the returned tuple.
  \<^item> \<open>bispectrum_numerics sig1 sig2 params\<close>: lines 157 to 267 of bispectrum_analysis.py
    (wavelet bispectra and their surrogates), which read \<open>params\<close> and assign the values
    of the returned tuple.
\<close>

record 'a numerics =
  initialize :: "py_error option"
  tolist :: "'a \<Rightarrow> py_error + 'a"
  matlab_double :: "'a \<Rightarrow> py_error + 'a"
  matlab_double_floats :: "real list \<Rightarrow> py_error + 'a"
  complexes :: "'a \<Rightarrow> py_error + (real \<times> real) list"
  full_bayesian :: "'a \<Rightarrow> 'a \<Rightarrow> real list \<Rightarrow> py_error + 'a list"
  bayes_numerics :: "'a TimeSeries \<Rightarrow> 'a TimeSeries \<Rightarrow> ParamSet \<Rightarrow> py_error + 'a bayes_values"
  biphase_numerics ::
    "'a \<Rightarrow> 'a \<Rightarrow> real \<Rightarrow> real \<Rightarrow> real list \<Rightarrow> 'a dict \<Rightarrow> py_error + 'a biphase_values"
  bispectrum_numerics ::
    "'a TimeSeries \<Rightarrow> 'a TimeSeries \<Rightarrow> BAParams \<Rightarrow> py_error + 'a bispectrum_values"

text \<open>
  \<^verbatim>\<open>
  def _moda_dynamic_bayesian_inference(queue, signal1, signal2, params):
      mp_utils.setup_matlab_runtime()
      import full_bayesian
      import matlab
      package = full_bayesian.initialize()
      sig1 = matlab.double(signal1.signal.tolist())
      sig2 = matlab.double(signal2.signal.tolist())
      int1 = list(params.freq_range1)
      int2 = list(params.freq_range2)
      fs = signal1.frequency
      win = params.window
      pr = params.propagation_const
      ovr = params.overlap
      bn = params.order
      ns = params.surr_count
      signif = params.confidence_level
      result = package.full_bayesian(sig1, sig2, *int1, *int2, fs, win, pr, ovr, bn, ns, signif)
      queue.put((signal1.name, *result))
  \<close>
  The result is the exception that leaves the function (\<open>None\<close>: it returns), the queue
  and the parameter object as the call leaves them.
\<close>

definition moda_dynamic_bayesian_inference ::
  "'a numerics \<Rightarrow> 'a queue \<Rightarrow> 'a TimeSeries \<Rightarrow> 'a TimeSeries \<Rightarrow> ParamSet \<Rightarrow>
   py_error option \<times> 'a queue \<times> ParamSet" where
  "moda_dynamic_bayesian_inference lib queue signal1 signal2 params =
     (case initialize lib of Some e \<Rightarrow> (Some e, queue, params) | None \<Rightarrow>
      case tolist lib (signal signal1) of Inl e \<Rightarrow> (Some e, queue, params) | Inr list1 \<Rightarrow>
      case matlab_double lib list1 of Inl e \<Rightarrow> (Some e, queue, params) | Inr sig1 \<Rightarrow>
      case tolist lib (signal signal2) of Inl e \<Rightarrow> (Some e, queue, params) | Inr list2 \<Rightarrow>
      case matlab_double lib list2 of Inl e \<Rightarrow> (Some e, queue, params) | Inr sig2 \<Rightarrow>
      let int1 = freq_range1 params;
          int2 = freq_range2 params;
          fs = frequency signal1;
          win = window params;
          pr = propagation_const params;
          ovr = overlap params;
          bn = order params;
          ns = surr_count params;
          signif = confidence_level params in
      case full_bayesian lib sig1 sig2 (int1 @ int2 @ [fs, win, pr, ovr, bn, ns, signif]) of
        Inl e \<Rightarrow> (Some e, queue, params)
      | Inr result \<Rightarrow> (None, Queue_put queue (Str (name signal1) # map Val result), params))"

text \<open>
  \<^verbatim>\<open>
  def _dynamic_bayesian_inference(queue, signal1, signal2, params):
      ...                       # lines 60 to 142
      queue.put((signal1.name, tm, p1, p2, cpl1, cpl2, cf1, cf2, mcf1, mcf2,
                 surr_cpl1, surr_cpl2))
  \<close>
\<close>

definition dynamic_bayesian_inference ::
  "'a numerics \<Rightarrow> 'a queue \<Rightarrow> 'a TimeSeries \<Rightarrow> 'a TimeSeries \<Rightarrow> ParamSet \<Rightarrow>
   py_error option \<times> 'a queue \<times> ParamSet" where
  "dynamic_bayesian_inference lib queue signal1 signal2 params =
     (case bayes_numerics lib signal1 signal2 params of
        Inl e \<Rightarrow> (Some e, queue, params)
      | Inr v \<Rightarrow>
          (None,
           Queue_put queue
             [Str (name signal1), Val (tm v), Val (p1 v), Val (p2 v), Val (cpl1 v), Val (cpl2 v),
              Val (cf1 v), Val (cf2 v), Val (mcf1 v), Val (mcf2 v), Val (surr_cpl1 v),
              Val (surr_cpl2 v)],
           params))"

text \<open>\<^verbatim>\<open>opt[k]\<close>: the value stored under \<open>k\<close>, \<open>KeyError\<close> when there is none.\<close>

definition getitem :: "'a dict \<Rightarrow> string \<Rightarrow> py_error + 'a" where
  "getitem opt k = (case opt k of None \<Rightarrow> Inl KeyError | Some v \<Rightarrow> Inr v)"

text \<open>
  The statements of \<^verbatim>\<open>_biphase\<close> that modify \<^verbatim>\<open>opt\<close>. Each gives the exception it
  raises (\<open>None\<close>: it completes) and the dictionary as it leaves it.
  \<^item> \<open>delitem k\<close> is \<^verbatim>\<open>del opt[k]\<close>, which raises \<open>KeyError\<close> when \<open>k\<close> is not a key;
  \<^item> \<open>pad_to_matlab lib k\<close> is \<^verbatim>\<open>opt[k] = matlab.double(opt[k].tolist())\<close>;
  \<^item> \<open>store_floats lib k xs\<close> is \<^verbatim>\<open>opt[k] = matlab.double(xs)\<close> for a list of floats.
\<close>

definition delitem :: "string \<Rightarrow> 'a dict \<Rightarrow> py_error option \<times> 'a dict" where
  "delitem k opt = (case opt k of None \<Rightarrow> (Some KeyError, opt) | Some v \<Rightarrow> (None, opt(k := None)))"

definition pad_to_matlab :: "'a numerics \<Rightarrow> string \<Rightarrow> 'a dict \<Rightarrow> py_error option \<times> 'a dict" where
  "pad_to_matlab lib k opt =
     (case getitem opt k of Inl e \<Rightarrow> (Some e, opt) | Inr pad \<Rightarrow>
      case tolist lib pad of Inl e \<Rightarrow> (Some e, opt) | Inr padlist \<Rightarrow>
      case matlab_double lib padlist of Inl e \<Rightarrow> (Some e, opt) | Inr m \<Rightarrow>
        (None, opt(k \<mapsto> m)))"

definition store_floats ::
  "'a numerics \<Rightarrow> string \<Rightarrow> real list \<Rightarrow> 'a dict \<Rightarrow> py_error option \<times> 'a dict" where
  "store_floats lib k xs opt =
     (case matlab_double_floats lib xs of Inl e \<Rightarrow> (Some e, opt) | Inr m \<Rightarrow>
        (None, opt(k \<mapsto> m)))"

text \<open>\<^verbatim>\<open>[complex(i) for i in opt[k]]\<close>, which reads \<^verbatim>\<open>opt\<close> only.\<close>

definition complex_list :: "'a numerics \<Rightarrow> 'a dict \<Rightarrow> string \<Rightarrow> py_error + (real \<times> real) list" where
  "complex_list lib opt k =
     (case getitem opt k of Inl e \<Rightarrow> Inl e | Inr v \<Rightarrow> complexes lib v)"

text \<open>Statements in sequence: the first exception ends the sequence.\<close>

fun statements ::
  "('s \<Rightarrow> py_error option \<times> 's) list \<Rightarrow> 's \<Rightarrow> py_error option \<times> 's" where
  "statements [] s = (None, s)"
| "statements (stmt # rest) s =
     (case stmt s of
        (Some e, s') \<Rightarrow> (Some e, s')
      | (None, s') \<Rightarrow> statements rest s')"

text \<open>
  \<^verbatim>\<open>
  @process
  def _biphase(sig1, sig2, fs, f0, fr, opt):
      import WT
      dummy_variable = WT
      import matlab
      from maths.algorithms.matlabwrappers import biphase_wav_new
      name = sig1.name
      sig1list = sig1.signal.tolist()
      sig2list = sig2.signal.tolist()
      opt["PadLR1"] = matlab.double(opt["PadLR1"].tolist())
      opt["PadLR2"] = matlab.double(opt["PadLR2"].tolist())
      twf1 = [complex(i) for i in opt["twf1"]]
      twf2 = [complex(i) for i in opt["twf2"]]
      twf1r = [i.real for i in twf1]
      twf2r = [i.real for i in twf2]
      twf1i = [i.imag for i in twf1]
      twf2i = [i.imag for i in twf2]
      del opt["twf1"]
      del opt["twf2"]
      opt["twf1r"] = matlab.double(twf1r)
      opt["twf2r"] = matlab.double(twf2r)
      opt["twf1i"] = matlab.double(twf1i)
      opt["twf2i"] = matlab.double(twf2i)
      ...                       # lines 87 to 109
      return (name, *fr, biamp1, biphase1, biamp2, biphase2, biamp3, biphase3,
              biamp4, biphase4)
  \<close>
  The dictionary \<^verbatim>\<open>opt\<close> is modified in place: the result is the returned tuple (or the
  exception raised) together with \<^verbatim>\<open>opt\<close> as the call leaves it.
\<close>

definition biphase ::
  "'a numerics \<Rightarrow> 'a TimeSeries \<Rightarrow> 'a TimeSeries \<Rightarrow> real \<Rightarrow> real \<Rightarrow> real list \<Rightarrow> 'a dict \<Rightarrow>
   (py_error + 'a result_tuple) \<times> 'a dict" where
  "biphase lib sig1 sig2 fs f0 fr opt =
     (case initialize lib of Some e \<Rightarrow> (Inl e, opt) | None \<Rightarrow>
      case tolist lib (signal sig1) of Inl e \<Rightarrow> (Inl e, opt) | Inr sig1list \<Rightarrow>
      case tolist lib (signal sig2) of Inl e \<Rightarrow> (Inl e, opt) | Inr sig2list \<Rightarrow>
      case statements [pad_to_matlab lib ''PadLR1'', pad_to_matlab lib ''PadLR2''] opt of
        (Some e, opt) \<Rightarrow> (Inl e, opt) | (None, opt) \<Rightarrow>
      case complex_list lib opt ''twf1'' of Inl e \<Rightarrow> (Inl e, opt) | Inr twf1 \<Rightarrow>
      case complex_list lib opt ''twf2'' of Inl e \<Rightarrow> (Inl e, opt) | Inr twf2 \<Rightarrow>
      let twf1r = map fst twf1;
          twf2r = map fst twf2;
          twf1i = map snd twf1;
          twf2i = map snd twf2 in
      case statements
             [delitem ''twf1'',
              delitem ''twf2'',
              store_floats lib ''twf1r'' twf1r,
              store_floats lib ''twf2r'' twf2r,
              store_floats lib ''twf1i'' twf1i,
              store_floats lib ''twf2i'' twf2i] opt of
        (Some e, opt) \<Rightarrow> (Inl e, opt) | (None, opt) \<Rightarrow>
      case biphase_numerics lib sig1list sig2list fs f0 fr opt of
        Inl e \<Rightarrow> (Inl e, opt)
      | Inr v \<Rightarrow>
          (Inr (Str (name sig1) # map Num fr @
                  [Val (biamp1 v), Val (biphase1 v), Val (biamp2 v), Val (biphase2 v),
                   Val (biamp3 v), Val (biphase3 v), Val (biamp4 v), Val (biphase4 v)]),
           opt))"

text \<open>
  \<^verbatim>\<open>
  @process
  def _bispectrum_analysis(sig1, sig2, params):
      from maths.algorithms.matlabwrappers import bispec_wav_new, wav_surrogate
      name = sig1.name
      ...                       # lines 160 to 267; params = {...} rebinds the local name
      return (name, freq, amp_wt1, pow_wt1, avg_amp_wt1, avg_pow_wt1, amp_wt2, pow_wt2,
              avg_amp_wt2, avg_pow_wt2, bispxxx, bispppp, bispxpp, bisppxx, surrxxx,
              surrppp, surrxpp, surrpxx, opt)
  \<close>
  The result is the returned tuple (or the exception raised) and the parameter object as
  the call leaves it.
\<close>

definition bispectrum_analysis ::
  "'a numerics \<Rightarrow> 'a TimeSeries \<Rightarrow> 'a TimeSeries \<Rightarrow> BAParams \<Rightarrow>
   (py_error + 'a result_tuple) \<times> BAParams" where
  "bispectrum_analysis lib sig1 sig2 params =
     (case initialize lib of Some e \<Rightarrow> (Inl e, params) | None \<Rightarrow>
      case bispectrum_numerics lib sig1 sig2 params of
        Inl e \<Rightarrow> (Inl e, params)
      | Inr v \<Rightarrow>
          (Inr [Str (name sig1), Val (freq_out v), Val (amp_wt1 v), Val (pow_wt1 v),
                Val (avg_amp_wt1 v), Val (avg_pow_wt1 v), Val (amp_wt2 v), Val (pow_wt2 v),
                Val (avg_amp_wt2 v), Val (avg_pow_wt2 v), Val (bispxxx v), Val (bispppp v),
                Val (bispxpp v), Val (bisppxx v), Val (surrxxx v), Val (surrppp v),
                Val (surrxpp v), Val (surrpxx v), Val (opt_out v)],
           params))"

text \<open>
  Modelled from the spec: the decorator \<^verbatim>\<open>process\<close> (processes/mp_utils.py) and the
  scheduler that runs a decorated function in a worker process are not under src/.
  Section 4.2: the compute function is ``writing exactly one ResultTuple to
  \<^verbatim>\<open>result_sink\<close> before returning (or writing nothing if it fails)''. The tuple a
  decorated function returns is put on the queue; nothing is put when it raises.
\<close>

definition process_put ::
  "'a queue \<Rightarrow> (py_error + 'a result_tuple) \<Rightarrow> py_error option \<times> 'a queue" where
  "process_put queue returned =
     (case returned of
        Inl e \<Rightarrow> (Some e, queue)
      | Inr t \<Rightarrow> (None, Queue_put queue t))"

section \<open>Dispatch of a batch\<close>

text \<open>
  Modelled from the spec: the JobDispatcher (\<^verbatim>\<open>mp_handler\<close> and the scheduler behind it) is
  not under src/. The host is what the dispatcher runs on: the number of its CPUs (``available
  CPU parallelism'') and its facility to start the worker process of one work item, which
  answers \<open>None\<close> when the process fails to start (``bounded only by OS/host resource
  limits'').
\<close>

record 'w host =
  cpu_count :: nat
  spawn_process :: "'w \<Rightarrow> process option"

text \<open>
  Modelled from the spec: the JobBatch that \<^verbatim>\<open>dispatch\<close> returns, missing from src/ with the
  dispatcher: the items submitted together and the WorkerHandles registered with the batch
  (section 4.2: ``registers each spawned WorkerHandle with the batch'').
\<close>

record 'w JobBatch =
  submitted :: "'w list"
  handles :: "process list"

text \<open>
  Modelled from the spec: the loop of the dispatcher, missing from src/. Section 4.2: ``one
  OS process is spawned per WorkItem; spawning is independent --- failure to spawn one
  worker does not prevent spawning others''. The items are taken in their order; an item
  whose process fails to start is passed over and the loop goes on. The number of CPUs is
  not consulted and no worker is waited for (``the source imposes no explicit concurrency
  cap'').
\<close>

fun spawn_workers :: "'w host \<Rightarrow> 'w list \<Rightarrow> process list" where
  "spawn_workers h [] = []"
| "spawn_workers h (item # rest) =
     (case spawn_process h item of
        None \<Rightarrow> spawn_workers h rest
      | Some worker \<Rightarrow> worker # spawn_workers h rest)"

text \<open>
  Modelled from the spec: \<^verbatim>\<open>dispatch(work_items, compute_fn, result_sink) -> JobBatch\<close> of
  section 4.2, missing from src/. The compute function and the result sink are what the
  started process runs and writes to; they are part of \<open>spawn_process\<close> here.
\<close>

definition dispatch :: "'w host \<Rightarrow> 'w list \<Rightarrow> 'w JobBatch" where
  "dispatch h work_items =
     \<lparr>submitted = work_items, handles = spawn_workers h work_items\<rparr>"

text \<open>
  Modelled from the spec: the workers that run concurrently, which the missing dispatcher
  would have to bound. Section 5: each compute function ``runs in its own process'', in
  parallel with the dispatcher and with the other workers. A worker runs from the moment
  its process is started until it exits; when it exits is not in the dispatcher's hands, so
  it is a schedule given from outside: \<open>exited item\<close> lists the processes that have exited
  by the time the process of \<open>item\<close> is started.
\<close>

definition still_running :: "pid list \<Rightarrow> process list \<Rightarrow> process list" where
  "still_running exited workers = filter (\<lambda>worker. pid worker \<notin> set exited) workers"

text \<open>
  Modelled from the spec: the workers running before the first item is handled and after
  each item has been handled by the loop of \<open>spawn_workers\<close>, the last entry being the
  workers that run when \<^verbatim>\<open>dispatch\<close> returns.
\<close>

fun running_during ::
  "'w host \<Rightarrow> ('w \<Rightarrow> pid list) \<Rightarrow> process list \<Rightarrow> 'w list \<Rightarrow> process list list" where
  "running_during h exited running [] = [running]"
| "running_during h exited running (item # rest) =
     running # running_during h exited
       (case spawn_process h item of
          None \<Rightarrow> still_running (exited item) running
        | Some worker \<Rightarrow> still_running (exited item) running @ [worker])
       rest"

text \<open>
  Modelled from the spec: the cap of section 2, ``a cap on concurrently running workers
  equal to available CPU parallelism'': at no moment of the dispatch do more workers run
  than the host has CPUs.
\<close>

definition cap_respected :: "'w host \<Rightarrow> ('w \<Rightarrow> pid list) \<Rightarrow> 'w list \<Rightarrow> bool" where
  "cap_respected h exited work_items =
     list_all (\<lambda>running. length running \<le> cpu_count h)
       (running_during h exited [] work_items)"

section \<open>Example data\<close>

text \<open>
  The scenario of section 8 of the specification: signals named by strings, nothing stored
  for any of them yet, and one result tuple per name. Arrays are natural numbers here.
\<close>

abbreviation empty_output :: "nat TFOutputData" where
  "empty_output \<equiv> \<lparr>times_d = 0, transform = 0, ampl = 0, freq = 0, powers = 0, avg_ampl = 0,
     avg_pow = 0, ridge_data = [], band_data = []\<rparr>"

abbreviation new_signal :: "string \<Rightarrow> nat TimeSeries" where
  "new_signal n \<equiv> \<lparr>name = n, signal = 0, frequency = 10, output_data = empty_output\<rparr>"

abbreviation new_presenter :: "string list \<Rightarrow> nat REPresenter" where
  "new_presenter ns \<equiv> \<lparr>signals = map new_signal ns, all_ridge_completed_calls = 0,
     all_filter_completed_calls = 0\<rparr>"

abbreviation ridge_of :: "string \<Rightarrow> nat ridge_result" where
  "ridge_of n \<equiv> \<lparr>r_name = n, r_times = 1, r_freq = 2, r_values = 3, r_ampl = 4, r_powers = 5,
     r_avg_ampl = 6, r_avg_pow = 7, r_interval = (1, 2), r_filtered_signal = 8, r_iphi = 9,
     r_ifreq = 10\<rparr>"

abbreviation filter_of :: "string \<Rightarrow> nat filter_result" where
  "filter_of n \<equiv> \<lparr>f_name = n, f_bands = 1, f_phase = 2, f_amp = 3, f_interval = (1, 2)\<rparr>"

abbreviation example_numerics :: "nat numerics" where
  "example_numerics \<equiv>
     \<lparr>initialize = None,
      tolist = (\<lambda>x. Inr x),
      matlab_double = (\<lambda>x. Inr x),
      matlab_double_floats = (\<lambda>xs. Inr (length xs)),
      complexes = (\<lambda>x. Inr (replicate x (1, 2))),
      full_bayesian = (\<lambda>sig1 sig2 args. Inr [sig1, sig2, length args]),
      bayes_numerics = (\<lambda>signal1 signal2 params.
        Inr \<lparr>tm = 1, p1 = 2, p2 = 3, cpl1 = 4, cpl2 = 5, cf1 = 6, cf2 = 7, mcf1 = 8, mcf2 = 9,
             surr_cpl1 = 10, surr_cpl2 = 11\<rparr>),
      biphase_numerics = (\<lambda>sig1list sig2list fs f0 fr opt.
        Inr \<lparr>biamp1 = 1, biphase1 = 2, biamp2 = 3, biphase2 = 4, biamp3 = 5, biphase3 = 6,
             biamp4 = 7, biphase4 = 8\<rparr>),
      bispectrum_numerics = (\<lambda>sig1 sig2 params.
        Inr \<lparr>freq_out = 1, amp_wt1 = 2, pow_wt1 = 3, avg_amp_wt1 = 4, avg_pow_wt1 = 5,
             amp_wt2 = 6, pow_wt2 = 7, avg_amp_wt2 = 8, avg_pow_wt2 = 9, bispxxx = 10,
             bispppp = 11, bispxpp = 12, bisppxx = 13, surrxxx = 14, surrppp = 15,
             surrxpp = 16, surrpxx = 17, opt_out = 18\<rparr>)\<rparr>"

abbreviation example_params :: ParamSet where
  "example_params \<equiv>
     \<lparr>freq_range1 = [1, 2], freq_range2 = [3, 4], window = 50, propagation_const = 2 / 10,
      overlap = 1, order = 2, surr_count = 19, confidence_level = 95\<rparr>"

abbreviation example_ba_params :: BAParams where
  "example_ba_params \<equiv>
     \<lparr>ba_fs = 10, ba_preprocess = True, ba_surr_count = Some 2, ba_nv = 16, ba_fmax = None,
      ba_fmin = None, ba_f0 = Some 1\<rparr>"

abbreviation example_opt :: "nat dict" where
  "example_opt \<equiv> [''PadLR1'' \<mapsto> 1, ''PadLR2'' \<mapsto> 2, ''twf1'' \<mapsto> 3, ''twf2'' \<mapsto> 4, ''nv'' \<mapsto> 5]"

section \<open>Properties of \<open>terminate_tree\<close>\<close>

lemma terminate_children_sent:
  "\<exists>cs. fst (terminate_children term children) = map ChildTerminate cs"
proof (induction children)
  case Nil
  show ?case by simp
next
  case (Cons c children)
  then obtain cs where cs: "fst (terminate_children term children) = map ChildTerminate cs"
    by blast
  show ?case
  proof (cases "term c")
    case None
    with cs have "fst (terminate_children term (c # children)) = map ChildTerminate (c # cs)"
      by (simp add: split_beta)
    then show ?thesis by blast
  next
    case (Some e)
    then have "fst (terminate_children term (c # children)) = map ChildTerminate []"
      by simp
    then show ?thesis by blast
  qed
qed

lemma try_body_sent: "\<exists>cs. fst (try_body ps proc) = map ChildTerminate cs"
proof (cases "children_recursive ps (pid proc)")
  case (Inl e)
  then have "fst (try_body ps proc) = map ChildTerminate []"
    by (simp add: try_body_def)
  then show ?thesis by blast
next
  case (Inr children)
  then show ?thesis
    using terminate_children_sent [of "child_terminate ps" children]
    by (simp add: try_body_def)
qed

text \<open>
  C5. Whatever the attempt on the descendants does (all requests sent, nothing found, an
  exception that is caught, an exception that is not), the requests issued by
  \<open>terminate_tree\<close> are requests to descendants followed by exactly one request to the
  handle's own process, which is the last one.
\<close>

theorem terminate_tree_own_process_last:
  "\<exists>cs. fst (terminate_tree ps proc) = map ChildTerminate cs @ [ProcessTerminate (pid proc)]"
proof -
  obtain cs where "fst (try_body ps proc) = map ChildTerminate cs"
    using try_body_sent by blast
  then have "fst (terminate_tree ps proc) = map ChildTerminate cs @ [ProcessTerminate (pid proc)]"
    by (simp add: terminate_tree_def split_beta)
  then show ?thesis by blast
qed

text \<open>
  An exception other than \<open>NoSuchProcess\<close> is not caught: it leaves the function, after
  the handle's own process has been asked to terminate.
\<close>

lemma terminate_tree_other_exception:
  "children_recursive ps (pid proc) = Inl AccessDenied \<Longrightarrow>
   terminate_tree ps proc = ([ProcessTerminate (pid proc)], Some AccessDenied)"
  by (simp add: terminate_tree_def try_body_def)

lemma terminate_children_all_sent:
  "\<forall>c\<in>set children. term c = None \<Longrightarrow>
   terminate_children term children = (map ChildTerminate children, None)"
  by (induction children) simp_all

lemma terminate_children_abandoned:
  "\<forall>c\<in>set before. term c = None \<Longrightarrow> term gone = Some e \<Longrightarrow>
   terminate_children term (before @ gone # remaining) = (map ChildTerminate before, Some e)"
  by (induction before) simp_all

text \<open>
  When the enumeration of the descendants succeeds and no \<^verbatim>\<open>terminate()\<close> of a descendant
  raises, a termination request is sent to every discovered descendant, in the order of
  discovery, and then to the handle's own process; the function returns.
\<close>

lemma terminate_tree_no_exception:
  assumes "children_recursive ps (pid proc) = Inr children"
    and "\<forall>c\<in>set children. child_terminate ps c = None"
  shows "terminate_tree ps proc =
           (map ChildTerminate children @ [ProcessTerminate (pid proc)], None)"
  using assms terminate_children_all_sent [of children "child_terminate ps"]
  by (simp add: terminate_tree_def try_body_def)

text \<open>
  C3. The docstring of \<^verbatim>\<open>terminate_tree\<close> says that it ``terminates a process along with all
  of its child processes'', and the claim asks for a request to every discovered descendant
  that exists. The code does not do that: the \<^verbatim>\<open>try\<close> block encloses the whole loop, so the
  first \<^verbatim>\<open>terminate()\<close> that raises ends it. Here the worker 200 has the descendants 201,
  202 and 203, and 202 exits between the enumeration and its \<^verbatim>\<open>terminate()\<close>, which raises
  \<open>NoSuchProcess\<close>: 203 exists (a request to it would go through) and is sent none. When
  \<^verbatim>\<open>terminate()\<close> on 202 raises \<open>AccessDenied\<close> instead, 203 is sent none either, and
  the exception leaves the function.
\<close>

theorem terminate_tree_skips_existing_descendant:
  "child_terminate
     \<lparr>children_recursive = (\<lambda>p. if p = 200 then Inr [201, 202, 203] else Inr []),
      child_terminate = (\<lambda>c. if c = 202 then Some NoSuchProcess else None)\<rparr> 203 = None
   \<and> terminate_tree
       \<lparr>children_recursive = (\<lambda>p. if p = 200 then Inr [201, 202, 203] else Inr []),
        child_terminate = (\<lambda>c. if c = 202 then Some NoSuchProcess else None)\<rparr> \<lparr>pid = 200\<rparr>
     = ([ChildTerminate 201, ProcessTerminate 200], None)
   \<and> ChildTerminate 203 \<notin> set (fst (terminate_tree
       \<lparr>children_recursive = (\<lambda>p. if p = 200 then Inr [201, 202, 203] else Inr []),
        child_terminate = (\<lambda>c. if c = 202 then Some NoSuchProcess else None)\<rparr> \<lparr>pid = 200\<rparr>))
   \<and> terminate_tree
       \<lparr>children_recursive = (\<lambda>p. if p = 200 then Inr [201, 202, 203] else Inr []),
        child_terminate = (\<lambda>c. if c = 202 then Some AccessDenied else None)\<rparr> \<lparr>pid = 200\<rparr>
     = ([ChildTerminate 201, ProcessTerminate 200], Some AccessDenied)"
  by (simp add: terminate_tree_def try_body_def)

text \<open>
  C4. When the worker's process has already exited (\<open>psutil\<close> finds no process with its id
  and raises \<open>NoSuchProcess\<close>), \<open>terminate_tree\<close> does not raise: no descendant is asked to
  terminate, the handle is asked to terminate, and the function returns.
\<close>

theorem terminate_tree_already_exited:
  assumes "children_recursive ps (pid proc) = Inl NoSuchProcess"
  shows "terminate_tree ps proc = ([ProcessTerminate (pid proc)], None)"
  using assms by (simp add: terminate_tree_def try_body_def)

theorem terminate_tree_already_exited_witness:
  "children_recursive
     \<lparr>children_recursive = (\<lambda>p. Inl NoSuchProcess), child_terminate = (\<lambda>c. None)\<rparr>
     (pid \<lparr>pid = 4242\<rparr>) = Inl NoSuchProcess
   \<and> terminate_tree
       \<lparr>children_recursive = (\<lambda>p. Inl NoSuchProcess), child_terminate = (\<lambda>c. None)\<rparr>
       \<lparr>pid = 4242\<rparr>
     = ([ProcessTerminate 4242], None)"
  using terminate_tree_already_exited
    [of "\<lparr>children_recursive = (\<lambda>p. Inl NoSuchProcess), child_terminate = (\<lambda>c. None)\<rparr>"
        "\<lparr>pid = 4242\<rparr>"]
  by simp

text \<open>
  C10. When the descendants \<open>before @ gone # remaining\<close> were discovered, the requests to
  \<open>before\<close> went through and \<^verbatim>\<open>terminate()\<close> on \<open>gone\<close> raises \<open>NoSuchProcess\<close>, the
  loop is abandoned: the requests issued are those to \<open>before\<close> followed by the one to the
  handle's own process, so no descendant of \<open>remaining\<close> (that is not also in \<open>before\<close>)
  is asked to terminate; the exception is caught and the function returns.
\<close>

theorem terminate_tree_child_vanished:
  assumes "children_recursive ps (pid proc) = Inr (before @ gone # remaining)"
    and "\<forall>c\<in>set before. child_terminate ps c = None"
    and "child_terminate ps gone = Some NoSuchProcess"
  shows "terminate_tree ps proc =
           (map ChildTerminate before @ [ProcessTerminate (pid proc)], None)
         \<and> (\<forall>c\<in>set remaining. c \<notin> set before \<longrightarrow>
               ChildTerminate c \<notin> set (fst (terminate_tree ps proc)))"
proof -
  have "try_body ps proc = (map ChildTerminate before, Some NoSuchProcess)"
    using assms terminate_children_abandoned [of before "child_terminate ps" gone NoSuchProcess remaining]
    by (simp add: try_body_def)
  then have "terminate_tree ps proc =
      (map ChildTerminate before @ [ProcessTerminate (pid proc)], None)"
    by (simp add: terminate_tree_def)
  then show ?thesis by auto
qed

theorem terminate_tree_child_vanished_witness:
  "children_recursive
     \<lparr>children_recursive = (\<lambda>p. Inr [101, 102, 103]),
      child_terminate = (\<lambda>c. if c = 102 then Some NoSuchProcess else None)\<rparr>
     (pid \<lparr>pid = 100\<rparr>) = Inr ([101] @ 102 # [103])
   \<and> list_all (\<lambda>c.
         child_terminate
           \<lparr>children_recursive = (\<lambda>p. Inr [101, 102, 103]),
            child_terminate = (\<lambda>c. if c = 102 then Some NoSuchProcess else None)\<rparr> c = None) [101]
   \<and> child_terminate
       \<lparr>children_recursive = (\<lambda>p. Inr [101, 102, 103]),
        child_terminate = (\<lambda>c. if c = 102 then Some NoSuchProcess else None)\<rparr> 102
     = Some NoSuchProcess
   \<and> terminate_tree
       \<lparr>children_recursive = (\<lambda>p. Inr [101, 102, 103]),
        child_terminate = (\<lambda>c. if c = 102 then Some NoSuchProcess else None)\<rparr> \<lparr>pid = 100\<rparr>
     = ([ChildTerminate 101, ProcessTerminate 100], None)
   \<and> ChildTerminate 103 \<notin> set (fst (terminate_tree
       \<lparr>children_recursive = (\<lambda>p. Inr [101, 102, 103]),
        child_terminate = (\<lambda>c. if c = 102 then Some NoSuchProcess else None)\<rparr> \<lparr>pid = 100\<rparr>))"
  using terminate_tree_child_vanished
    [of "\<lparr>children_recursive = (\<lambda>p. Inr [101, 102, 103]),
          child_terminate = (\<lambda>c. if c = 102 then Some NoSuchProcess else None)\<rparr>"
        "\<lparr>pid = 100\<rparr>" "[101]" 102 "[103]"]
  by simp

section \<open>Properties of the result handlers\<close>

lemmas handler_defs =
  on_ridge_completed_def on_filter_completed_def Signals_get_def set_ridge_data_def
  has_ridge_data_def set_band_data_def has_band_data_def on_all_ridge_completed_def
  on_all_filter_completed_def Let_def

lemma Signals_get_unmatched:
  "n \<notin> set (map name sigs) \<Longrightarrow> Signals_get sigs n = None"
  by (auto simp add: Signals_get_def find_None_iff)

lemma deliver_invariant:
  assumes step: "\<And>st r e st'. I st \<Longrightarrow> r \<in> set rs \<Longrightarrow> h st r = (e, st') \<Longrightarrow> I st'"
    and "I st"
  shows "I (snd (deliver h st rs))"
  using assms
proof (induction rs arbitrary: st)
  case Nil
  then show ?case by simp
next
  case (Cons r rs)
  obtain e st' where h: "h st r = (e, st')" by (cases "h st r")
  have I': "I st'" using Cons.prems(1) [OF Cons.prems(2) _ h] by simp
  show ?case
  proof (cases e)
    case None
    have "I (snd (deliver h st' rs))"
      by (rule Cons.IH) (use Cons.prems(1) I' in auto)
    with h None show ?thesis by simp
  next
    case (Some a)
    with h I' show ?thesis by simp
  qed
qed

lemma write_back_keeps:
  "s \<in> set sigs \<Longrightarrow> name s \<noteq> n \<Longrightarrow> s \<in> set (write_back sigs n s')"
  by (induction sigs) auto

lemma on_ridge_completed_missing:
  assumes "s \<in> set (signals self)" "\<not> has_ridge_data (output_data s)" "name s \<noteq> r_name r"
    and "on_ridge_completed self r = (e, self')"
  shows "s \<in> set (signals self') \<and> all_ridge_completed_calls self' = all_ridge_completed_calls self"
proof (cases "Signals_get (signals self) (r_name r)")
  case None
  with assms show ?thesis by (simp add: on_ridge_completed_def)
next
  case (Some sig)
  let ?sigs' = "signals self'"
  from assms(1,3) have "s \<in> set (write_back (signals self) (r_name r) x)" for x
    by (rule write_back_keeps)
  with assms(2,4) Some show ?thesis
    by (auto simp add: on_ridge_completed_def Let_def list_all_iff on_all_ridge_completed_def split: if_splits)
qed


lemma Signals_get_Some:
  "Signals_get sigs n = Some s \<Longrightarrow> s \<in> set sigs \<and> name s = n"
  by (auto simp add: Signals_get_def find_Some_iff)

lemma Signals_get_None: "Signals_get sigs n = None \<longleftrightarrow> n \<notin> set (map name sigs)"
  by (auto simp add: Signals_get_def find_None_iff)

lemma write_back_names:
  "name s' = n \<Longrightarrow> map name (write_back sigs n s') = map name sigs"
  by (induction sigs) auto

lemma write_back_set:
  "distinct (map name sigs) \<Longrightarrow> n \<in> set (map name sigs) \<Longrightarrow>
   set (write_back sigs n s') = insert s' {s \<in> set sigs. name s \<noteq> n}"
  by (induction sigs) (auto simp add: rev_image_eqI)

lemma has_ridge_data_set [simp]: "has_ridge_data (set_ridge_data d i a b c)"
  by (simp add: has_ridge_data_def set_ridge_data_def)

lemma on_ridge_completed_step:
  assumes "distinct (map name (signals self))" and "r_name r \<in> set (map name (signals self))"
  shows "\<exists>self'. on_ridge_completed self r = (None, self')
     \<and> map name (signals self') = map name (signals self)
     \<and> (\<forall>s'\<in>set (signals self'). has_ridge_data (output_data s') \<longleftrightarrow>
           (name s' = r_name r \<or> (\<exists>s\<in>set (signals self). name s = name s' \<and> has_ridge_data (output_data s))))
     \<and> all_ridge_completed_calls self' = all_ridge_completed_calls self +
           (if list_all (\<lambda>i. has_ridge_data (output_data i)) (signals self') then 1 else 0)
     \<and> all_filter_completed_calls self' = all_filter_completed_calls self"
proof -
  from assms(2) obtain sig where sig: "Signals_get (signals self) (r_name r) = Some sig"
    using Signals_get_None [of "signals self" "r_name r"] by (cases "Signals_get (signals self) (r_name r)") auto
  then have sig_in: "sig \<in> set (signals self)" and sig_name: "name sig = r_name r"
    using Signals_get_Some by blast+
  define d where "d = (set_ridge_data (output_data sig) (r_interval r) (r_filtered_signal r) (r_ifreq r) (r_iphi r))
      \<lparr>transform := r_values r, ampl := r_ampl r, powers := r_powers r, avg_ampl := r_avg_ampl r,
        avg_pow := r_avg_pow r, freq := r_freq r, times_d := r_times r\<rparr>"
  define sigs' where "sigs' = write_back (signals self) (r_name r) (sig\<lparr>output_data := d\<rparr>)"
  have hd: "has_ridge_data d"
    by (simp add: d_def has_ridge_data_def set_ridge_data_def)
  have res: "on_ridge_completed self r =
      (if list_all (\<lambda>i. has_ridge_data (output_data i)) sigs'
       then (None, on_all_ridge_completed (self\<lparr>signals := sigs'\<rparr>))
       else (None, self\<lparr>signals := sigs'\<rparr>))"
    using sig by (simp add: on_ridge_completed_def Let_def d_def sigs'_def)
  have names: "map name sigs' = map name (signals self)"
    unfolding sigs'_def by (rule write_back_names) (simp add: sig_name)
  have set': "set sigs' = insert (sig\<lparr>output_data := d\<rparr>) {s \<in> set (signals self). name s \<noteq> r_name r}"
    unfolding sigs'_def using assms by (rule write_back_set)
  have has: "\<forall>s'\<in>set sigs'. has_ridge_data (output_data s') \<longleftrightarrow>
           (name s' = r_name r \<or> (\<exists>s\<in>set (signals self). name s = name s' \<and> has_ridge_data (output_data s)))"
  proof
    fix s' assume "s' \<in> set sigs'"
    then consider "s' = sig\<lparr>output_data := d\<rparr>" | "s' \<in> set (signals self)" "name s' \<noteq> r_name r"
      using set' by auto
    then show "has_ridge_data (output_data s') \<longleftrightarrow>
           (name s' = r_name r \<or> (\<exists>s\<in>set (signals self). name s = name s' \<and> has_ridge_data (output_data s)))"
    proof cases
      case 1
      then show ?thesis using hd sig_name by simp
    next
      case 2
      have "s = s'" if "s \<in> set (signals self)" "name s = name s'" for s
        using that 2(1) assms(1) by (meson distinct_map inj_onD)
      with 2 show ?thesis by auto
    qed
  qed
  show ?thesis
    using res names has by (auto simp add: on_all_ridge_completed_def)
qed


lemma deliver_append:
  "deliver h st (xs @ ys) =
     (case deliver h st xs of (None, st') \<Rightarrow> deliver h st' ys | (Some e, st') \<Rightarrow> (Some e, st'))"
  by (induction xs arbitrary: st) (auto split: prod.splits option.splits)

lemma deliver_ridge_matched:
  assumes "distinct (map name (signals self))"
    and "set (map r_name rs) \<subseteq> set (map name (signals self))"
  shows "\<exists>self'. deliver on_ridge_completed self rs = (None, self')
     \<and> map name (signals self') = map name (signals self)
     \<and> (\<forall>s'\<in>set (signals self'). has_ridge_data (output_data s') \<longleftrightarrow>
           (name s' \<in> set (map r_name rs) \<or>
            (\<exists>s\<in>set (signals self). name s = name s' \<and> has_ridge_data (output_data s))))"
  using assms
proof (induction rs arbitrary: self)
  case Nil
  have "s = s'" if "s \<in> set (signals self)" "s' \<in> set (signals self)" "name s = name s'" for s s'
    using that Nil(1) by (meson distinct_map inj_onD)
  then show ?case by auto
next
  case (Cons r rs)
  from Cons.prems obtain self1 where
    h: "on_ridge_completed self r = (None, self1)"
    and n1: "map name (signals self1) = map name (signals self)"
    and has1: "\<forall>s'\<in>set (signals self1). has_ridge_data (output_data s') \<longleftrightarrow>
           (name s' = r_name r \<or> (\<exists>s\<in>set (signals self). name s = name s' \<and> has_ridge_data (output_data s)))"
    using on_ridge_completed_step [of self r] by auto
  have "distinct (map name (signals self1))" "set (map r_name rs) \<subseteq> set (map name (signals self1))"
    using Cons.prems n1 by auto
  from Cons.IH [OF this] obtain self2 where
    d: "deliver on_ridge_completed self1 rs = (None, self2)"
    and n2: "map name (signals self2) = map name (signals self1)"
    and has2: "\<forall>s'\<in>set (signals self2). has_ridge_data (output_data s') \<longleftrightarrow>
           (name s' \<in> set (map r_name rs) \<or>
            (\<exists>s\<in>set (signals self1). name s = name s' \<and> has_ridge_data (output_data s)))"
    by blast
  have "\<forall>s'\<in>set (signals self2). has_ridge_data (output_data s') \<longleftrightarrow>
           (name s' \<in> set (map r_name (r # rs)) \<or>
            (\<exists>s\<in>set (signals self). name s = name s' \<and> has_ridge_data (output_data s)))"
  proof
    fix s' assume s': "s' \<in> set (signals self2)"
    have name_in1: "\<exists>s\<in>set (signals self1). name s = name s'"
    proof -
      have "name s' \<in> set (map name (signals self2))" using s' by simp
      then have "name s' \<in> set (map name (signals self1))" using n2 by simp
      then show ?thesis by auto
    qed
    show "has_ridge_data (output_data s') \<longleftrightarrow>
           (name s' \<in> set (map r_name (r # rs)) \<or>
            (\<exists>s\<in>set (signals self). name s = name s' \<and> has_ridge_data (output_data s)))"
      using has2 [rule_format, OF s'] has1 name_in1 by (auto; metis)
  qed
  with h d n1 n2 show ?case by simp
qed


lemma on_filter_completed_missing:
  assumes "s \<in> set (signals self)" "\<not> has_band_data (output_data s)" "name s \<noteq> f_name r"
    and "on_filter_completed m self r = (e, self')"
  shows "s \<in> set (signals self') \<and> all_filter_completed_calls self' = all_filter_completed_calls self"
proof (cases "Signals_get (signals self) (f_name r)")
  case None
  with assms show ?thesis by (simp add: on_filter_completed_def)
next
  case (Some d)
  from assms(1,3) have "s \<in> set (write_back (signals self) (f_name r) x)" for x
    by (rule write_back_keeps)
  with assms(1,2,4) Some show ?thesis
    by (cases m)
      (auto simp add: on_filter_completed_def Let_def list_all_iff on_all_filter_completed_def
         split: if_splits)
qed

lemma deliver_ridge_missing:
  assumes "s \<in> set (signals self)" "\<not> has_ridge_data (output_data s)"
    and "name s \<notin> set (map r_name rs)"
  shows "s \<in> set (signals (snd (deliver on_ridge_completed self rs))) \<and>
    all_ridge_completed_calls (snd (deliver on_ridge_completed self rs)) = all_ridge_completed_calls self"
proof (rule deliver_invariant [where rs = rs and I = "\<lambda>st. s \<in> set (signals st) \<and>
    all_ridge_completed_calls st = all_ridge_completed_calls self"])
  fix st r e st'
  assume "s \<in> set (signals st) \<and> all_ridge_completed_calls st = all_ridge_completed_calls self"
    "r \<in> set rs" "on_ridge_completed st r = (e, st')"
  then show "s \<in> set (signals st') \<and> all_ridge_completed_calls st' = all_ridge_completed_calls self"
    using on_ridge_completed_missing [of s st r e st'] assms(2,3) by auto
next
  show "s \<in> set (signals self) \<and> all_ridge_completed_calls self = all_ridge_completed_calls self"
    using assms(1) by simp
qed

lemma deliver_filter_missing:
  assumes "s \<in> set (signals self)" "\<not> has_band_data (output_data s)"
    and "name s \<notin> set (map f_name rs)"
  shows "s \<in> set (signals (snd (deliver (on_filter_completed m) self rs))) \<and>
    all_filter_completed_calls (snd (deliver (on_filter_completed m) self rs)) = all_filter_completed_calls self"
proof (rule deliver_invariant [where rs = rs and I = "\<lambda>st. s \<in> set (signals st) \<and>
    all_filter_completed_calls st = all_filter_completed_calls self"])
  fix st r e st'
  assume "s \<in> set (signals st) \<and> all_filter_completed_calls st = all_filter_completed_calls self"
    "r \<in> set rs" "on_filter_completed m st r = (e, st')"
  then show "s \<in> set (signals st') \<and> all_filter_completed_calls st' = all_filter_completed_calls self"
    using on_filter_completed_missing [of s st r m e st'] assms(2,3) by auto
next
  show "s \<in> set (signals self) \<and> all_filter_completed_calls self = all_filter_completed_calls self"
    using assms(1) by simp
qed

text \<open>
  C2 (amended). As long as one signal of the batch has nothing stored yet and no delivered
  result carries its name, the batch-completion callback is not invoked, whatever else is
  delivered and in whatever order: this holds for \<open>on_ridge_completed\<close> with
  \<open>on_all_ridge_completed\<close>, and for \<open>on_filter_completed\<close> with
  \<open>on_all_filter_completed\<close> (for every behaviour of \<^verbatim>\<open>TimeSeries.set_band_data\<close>). The
  handlers test what is stored for the signals, not which results of the current batch
  have arrived, so the signal that reports nothing must hold no data of an earlier batch.
\<close>

theorem no_completion_while_item_missing:
  assumes "s \<in> set (signals self)" and "name s \<notin> set (map r_name rs)" and "name s \<notin> set (map f_name fs)"
  shows "(\<not> has_ridge_data (output_data s) \<longrightarrow>
            all_ridge_completed_calls (snd (deliver on_ridge_completed self rs)) =
            all_ridge_completed_calls self)
       \<and> (\<not> has_band_data (output_data s) \<longrightarrow>
            all_filter_completed_calls (snd (deliver (on_filter_completed m) self fs)) =
            all_filter_completed_calls self)"
  using assms deliver_ridge_missing [of s self rs] deliver_filter_missing [of s self fs m] by blast

theorem no_completion_while_item_missing_witness:
  "new_signal ''sigC'' \<in> set (signals (new_presenter [''sigA'', ''sigB'', ''sigC'']))
   \<and> name (new_signal ''sigC'') \<notin> set (map r_name [ridge_of ''sigB'', ridge_of ''sigA'', ridge_of ''sigB''])
   \<and> name (new_signal ''sigC'') \<notin> set (map f_name [filter_of ''sigA'', filter_of ''sigB''])
   \<and> \<not> has_ridge_data (output_data (new_signal ''sigC''))
   \<and> \<not> has_band_data (output_data (new_signal ''sigC''))
   \<and> all_ridge_completed_calls
        (snd (deliver on_ridge_completed (new_presenter [''sigA'', ''sigB'', ''sigC''])
           [ridge_of ''sigB'', ridge_of ''sigA'', ridge_of ''sigB''])) = 0
   \<and> all_filter_completed_calls
        (snd (deliver
           (on_filter_completed
              (Some (\<lambda>d i b p a. d\<lparr>output_data := set_band_data (output_data d) i b p a\<rparr>)))
           (new_presenter [''sigA'', ''sigB'', ''sigC''])
           [filter_of ''sigA'', filter_of ''sigB''])) = 0"
  using no_completion_while_item_missing
    [of "new_signal ''sigC''" "new_presenter [''sigA'', ''sigB'', ''sigC'']"
        "[ridge_of ''sigB'', ridge_of ''sigA'', ridge_of ''sigB'']"
        "[filter_of ''sigA'', filter_of ''sigB'']"
        "Some (\<lambda>d i b p a. d\<lparr>output_data := set_band_data (output_data d) i b p a\<rparr>)"]
  by (simp add: handler_defs)

text \<open>
  C2 as stated fails: the signals sigA and sigB hold the ridge data of a first extraction,
  which \<^verbatim>\<open>on_ridge_extraction_clicked\<close> does not clear. Of a second extraction, on another
  interval, only the result for sigA is delivered, one of two: it invokes
  \<open>on_all_ridge_completed\<close>, although sigB has reported nothing.
\<close>

theorem completion_with_item_missing_counterexample:
  "name (new_signal ''sigB'') \<notin> set (map r_name [(ridge_of ''sigA'')\<lparr>r_interval := (3, 4)\<rparr>])
   \<and> all_ridge_completed_calls
        (snd (deliver on_ridge_completed (new_presenter [''sigA'', ''sigB''])
           [ridge_of ''sigA'', ridge_of ''sigB''])) = 1
   \<and> all_ridge_completed_calls
        (snd (deliver on_ridge_completed
           (snd (deliver on_ridge_completed (new_presenter [''sigA'', ''sigB''])
              [ridge_of ''sigA'', ridge_of ''sigB'']))
           [(ridge_of ''sigA'')\<lparr>r_interval := (3, 4)\<rparr>])) = 2"
  by (simp add: handler_defs)

text \<open>
  C1 (amended). Take a non-empty list of signals with distinct names, none of which has
  ridge data, and deliver one ridge result per signal, in any order. The delivery raises
  nothing and \<open>on_all_ridge_completed\<close> has then been invoked exactly once: by the last
  result, and by none before it. Completion is not latched: every further result for one
  of the signals invokes the callback once more.
\<close>

theorem all_ridge_completed_on_last_result:
  assumes nonempty: "signals self \<noteq> []"
    and dist: "distinct (map name (signals self))"
    and fresh: "\<forall>s\<in>set (signals self). \<not> has_ridge_data (output_data s)"
    and one_each: "distinct (map r_name rs)"
    and all_items: "set (map r_name rs) = set (map name (signals self))"
  shows "\<exists>self'. deliver on_ridge_completed self rs = (None, self')
      \<and> all_ridge_completed_calls self' = all_ridge_completed_calls self + 1
      \<and> (\<forall>k<length rs. all_ridge_completed_calls (snd (deliver on_ridge_completed self (take k rs)))
             = all_ridge_completed_calls self)
      \<and> (\<forall>r. r_name r \<in> set (map name (signals self)) \<longrightarrow>
            (\<exists>self''. on_ridge_completed self' r = (None, self'')
               \<and> all_ridge_completed_calls self'' = all_ridge_completed_calls self' + 1))"
proof -
  have before: "all_ridge_completed_calls (snd (deliver on_ridge_completed self (take k rs)))
             = all_ridge_completed_calls self" if k: "k < length rs" for k
  proof -
    have "r_name (rs ! k) \<in> set (map name (signals self))"
      using all_items k by (metis length_map nth_map nth_mem)
    then obtain s where s: "s \<in> set (signals self)" "name s = r_name (rs ! k)" by auto
    have "map r_name rs ! k \<notin> set (take k (map r_name rs))"
      using one_each k by (metis distinct_take id_take_nth_drop length_map not_distinct_conv_prefix)
    then have "name s \<notin> set (map r_name (take k rs))"
      using s k by (simp add: take_map)
    with s fresh show ?thesis
      using deliver_ridge_missing [of s self "take k rs"] by blast
  qed
  from nonempty all_items have "rs \<noteq> []" by auto
  then obtain rs0 r0 where rs: "rs = rs0 @ [r0]"
    by (metis append_butlast_last_id)
  have take0: "take (length rs0) rs = rs0" using rs by simp
  from all_items rs have sub0: "set (map r_name rs0) \<subseteq> set (map name (signals self))" by auto
  from deliver_ridge_matched [OF dist sub0] obtain self1 where
    d1: "deliver on_ridge_completed self rs0 = (None, self1)"
    and n1: "map name (signals self1) = map name (signals self)"
    and has1: "\<forall>s'\<in>set (signals self1). has_ridge_data (output_data s') \<longleftrightarrow>
           (name s' \<in> set (map r_name rs0) \<or>
            (\<exists>s\<in>set (signals self). name s = name s' \<and> has_ridge_data (output_data s)))"
    by blast
  have c1: "all_ridge_completed_calls self1 = all_ridge_completed_calls self"
    using before [of "length rs0"] rs d1 take0 by simp
  have dist1: "distinct (map name (signals self1))" using dist n1 by simp
  have in1: "r_name r0 \<in> set (map name (signals self1))" using all_items rs n1 by auto
  from on_ridge_completed_step [OF dist1 in1] obtain self2 where
    h2: "on_ridge_completed self1 r0 = (None, self2)"
    and n2: "map name (signals self2) = map name (signals self1)"
    and has2: "\<forall>s'\<in>set (signals self2). has_ridge_data (output_data s') \<longleftrightarrow>
           (name s' = r_name r0 \<or> (\<exists>s\<in>set (signals self1). name s = name s' \<and> has_ridge_data (output_data s)))"
    and c2: "all_ridge_completed_calls self2 = all_ridge_completed_calls self1 +
           (if list_all (\<lambda>i. has_ridge_data (output_data i)) (signals self2) then 1 else 0)"
    by blast
  have all2: "has_ridge_data (output_data s')" if s': "s' \<in> set (signals self2)" for s'
  proof -
    have "name s' \<in> set (map name (signals self2))" using s' by simp
    then have nm: "name s' \<in> set (map name (signals self1))" "name s' \<in> set (map r_name rs)"
      using n2 n1 all_items by simp_all
    then obtain s1 where s1: "s1 \<in> set (signals self1)" "name s1 = name s'" by auto
    show ?thesis
    proof (cases "name s' = r_name r0")
      case True
      then show ?thesis using has2 s' by blast
    next
      case False
      with nm(2) rs have "name s1 \<in> set (map r_name rs0)" using s1(2) by auto
      then have "has_ridge_data (output_data s1)" using has1 s1(1) by blast
      then show ?thesis using has2 s' s1 by blast
    qed
  qed
  then have la2: "list_all (\<lambda>i. has_ridge_data (output_data i)) (signals self2)"
    by (simp add: list_all_iff)
  have d2: "deliver on_ridge_completed self rs = (None, self2)"
    using rs d1 h2 by (simp add: deliver_append)
  have again: "\<exists>self''. on_ridge_completed self2 r = (None, self'')
               \<and> all_ridge_completed_calls self'' = all_ridge_completed_calls self2 + 1"
    if r: "r_name r \<in> set (map name (signals self))" for r
  proof -
    have dist2: "distinct (map name (signals self2))" using dist1 n2 by simp
    have in2: "r_name r \<in> set (map name (signals self2))" using r n1 n2 by simp
    from on_ridge_completed_step [OF dist2 in2] obtain self3 where
      h3: "on_ridge_completed self2 r = (None, self3)"
      and n3: "map name (signals self3) = map name (signals self2)"
      and has3: "\<forall>s'\<in>set (signals self3). has_ridge_data (output_data s') \<longleftrightarrow>
           (name s' = r_name r \<or> (\<exists>s\<in>set (signals self2). name s = name s' \<and> has_ridge_data (output_data s)))"
      and c3: "all_ridge_completed_calls self3 = all_ridge_completed_calls self2 +
           (if list_all (\<lambda>i. has_ridge_data (output_data i)) (signals self3) then 1 else 0)"
      by blast
    have "has_ridge_data (output_data s')" if s': "s' \<in> set (signals self3)" for s'
    proof -
      have "name s' \<in> set (map name (signals self3))" using s' by simp
      then have "name s' \<in> set (map name (signals self2))" using n3 by simp
      then obtain s2 where "s2 \<in> set (signals self2)" "name s2 = name s'" by auto
      then show ?thesis using has3 s' all2 by blast
    qed
    then have "list_all (\<lambda>i. has_ridge_data (output_data i)) (signals self3)"
      by (simp add: list_all_iff)
    with h3 c3 show ?thesis by simp
  qed
  show ?thesis
    using d2 c2 la2 c1 before again by auto
qed

theorem all_ridge_completed_on_last_result_witness:
  "signals (new_presenter [''sigA'', ''sigB'', ''sigC'']) \<noteq> []
   \<and> distinct (map name (signals (new_presenter [''sigA'', ''sigB'', ''sigC''])))
   \<and> list_all (\<lambda>s. \<not> has_ridge_data (output_data s))
        (signals (new_presenter [''sigA'', ''sigB'', ''sigC'']))
   \<and> distinct (map r_name [ridge_of ''sigC'', ridge_of ''sigB'', ridge_of ''sigA''])
   \<and> set (map r_name [ridge_of ''sigC'', ridge_of ''sigB'', ridge_of ''sigA''])
       = set (map name (signals (new_presenter [''sigA'', ''sigB'', ''sigC''])))
   \<and> fst (deliver on_ridge_completed (new_presenter [''sigA'', ''sigB'', ''sigC''])
            [ridge_of ''sigC'', ridge_of ''sigB'', ridge_of ''sigA'']) = None
   \<and> all_ridge_completed_calls
        (snd (deliver on_ridge_completed (new_presenter [''sigA'', ''sigB'', ''sigC''])
           [ridge_of ''sigC'', ridge_of ''sigB'', ridge_of ''sigA''])) = 1
   \<and> all_ridge_completed_calls
        (snd (deliver on_ridge_completed (new_presenter [''sigA'', ''sigB'', ''sigC''])
           [ridge_of ''sigC'', ridge_of ''sigB''])) = 0
   \<and> all_ridge_completed_calls
        (snd (on_ridge_completed
           (snd (deliver on_ridge_completed (new_presenter [''sigA'', ''sigB'', ''sigC''])
              [ridge_of ''sigC'', ridge_of ''sigB'', ridge_of ''sigA'']))
           (ridge_of ''sigB''))) = 2"
proof -
  let ?p = "new_presenter [''sigA'', ''sigB'', ''sigC'']"
  let ?rs = "[ridge_of ''sigC'', ridge_of ''sigB'', ridge_of ''sigA'']"
  have h1: "signals ?p \<noteq> []" by simp
  have h2: "distinct (map name (signals ?p))" by simp
  have h3: "\<forall>s\<in>set (signals ?p). \<not> has_ridge_data (output_data s)"
    by (simp add: has_ridge_data_def)
  have h4: "distinct (map r_name ?rs)" by simp
  have h5: "set (map r_name ?rs) = set (map name (signals ?p))" by auto
  from all_ridge_completed_on_last_result [OF h1 h2 h3 h4 h5] obtain self' where
    d: "deliver on_ridge_completed ?p ?rs = (None, self')"
    and c: "all_ridge_completed_calls self' = all_ridge_completed_calls ?p + 1"
    and before: "\<forall>k<length ?rs. all_ridge_completed_calls
        (snd (deliver on_ridge_completed ?p (take k ?rs))) = all_ridge_completed_calls ?p"
    and again: "\<forall>r. r_name r \<in> set (map name (signals ?p)) \<longrightarrow>
        (\<exists>self''. on_ridge_completed self' r = (None, self'')
           \<and> all_ridge_completed_calls self'' = all_ridge_completed_calls self' + 1)"
    by blast
  have two: "all_ridge_completed_calls
      (snd (deliver on_ridge_completed ?p (take 2 ?rs))) = all_ridge_completed_calls ?p"
    using before [THEN spec, of 2] by simp
  have take2: "take 2 ?rs = [ridge_of ''sigC'', ridge_of ''sigB'']"
    by (simp add: numeral_2_eq_2)
  have "r_name (ridge_of ''sigB'') \<in> set (map name (signals ?p))" by simp
  with again obtain self'' where
    "on_ridge_completed self' (ridge_of ''sigB'') = (None, self'')"
    "all_ridge_completed_calls self'' = all_ridge_completed_calls self' + 1"
    by blast
  with d c two take2 h1 h2 h3 h4 h5 show ?thesis
    by (simp add: list_all_iff)
qed

text \<open>
  C1 as stated fails: with the signals sigA and sigB, the results for sigB and sigA complete
  the batch, and a further result for sigA invokes \<open>on_all_ridge_completed\<close> a second time.
\<close>

theorem all_ridge_completed_twice_counterexample:
  "all_ridge_completed_calls
     (snd (deliver on_ridge_completed (new_presenter [''sigA'', ''sigB''])
        [ridge_of ''sigB'', ridge_of ''sigA'', ridge_of ''sigA''])) = 2"
  by (simp add: handler_defs)

text \<open>
  C6 (amended). A result whose name matches no signal is not discarded with a warning:
  \<open>on_ridge_completed\<close> and \<open>on_filter_completed\<close> raise \<open>AttributeError\<close> on it. They
  raise before anything is changed: the signals, the data stored for them and the numbers
  of completion callbacks invoked are those of before the call, so the completion
  accounting of the genuine items is unaffected.
\<close>

theorem unmatched_result_raises:
  "(r_name r \<notin> set (map name (signals self)) \<longrightarrow>
      on_ridge_completed self r = (Some AttributeError, self))
   \<and> (f_name fr \<notin> set (map name (signals self)) \<longrightarrow>
      on_filter_completed m self fr = (Some AttributeError, self))"
proof (intro conjI impI)
  assume "r_name r \<notin> set (map name (signals self))"
  then have "Signals_get (signals self) (r_name r) = None"
    by (rule Signals_get_unmatched)
  then show "on_ridge_completed self r = (Some AttributeError, self)"
    by (simp add: on_ridge_completed_def)
next
  assume "f_name fr \<notin> set (map name (signals self))"
  then have "Signals_get (signals self) (f_name fr) = None"
    by (rule Signals_get_unmatched)
  then show "on_filter_completed m self fr = (Some AttributeError, self)"
    by (simp add: on_filter_completed_def)
qed

theorem unmatched_result_raises_witness:
  "r_name (ridge_of ''ghost'') \<notin> set (map name (signals (new_presenter [''sigA'', ''sigB''])))
   \<and> f_name (filter_of ''ghost'') \<notin> set (map name (signals (new_presenter [''sigA'', ''sigB''])))
   \<and> on_ridge_completed (new_presenter [''sigA'', ''sigB'']) (ridge_of ''ghost'')
      = (Some AttributeError, new_presenter [''sigA'', ''sigB''])
   \<and> on_filter_completed None (new_presenter [''sigA'', ''sigB'']) (filter_of ''ghost'')
      = (Some AttributeError, new_presenter [''sigA'', ''sigB''])"
  using unmatched_result_raises
    [of "ridge_of ''ghost''" "new_presenter [''sigA'', ''sigB'']" "filter_of ''ghost''" None]
  by simp

text \<open>
  C6 as stated fails: with the signals sigA and sigB, a result named ghost makes the
  handler raise.
\<close>

theorem unmatched_result_crashes_counterexample:
  "fst (on_ridge_completed (new_presenter [''sigA'', ''sigB'']) (ridge_of ''ghost''))
     = Some AttributeError"
  by (simp add: handler_defs)

section \<open>Properties of the compute functions\<close>

lemma statements_Nil_None: "statements [] s = (None, s') \<longleftrightarrow> s' = s"
  by auto

lemma statements_Cons_None:
  "statements (stmt # rest) s = (None, s') \<longleftrightarrow>
     (\<exists>s1. stmt s = (None, s1) \<and> statements rest s1 = (None, s'))"
  by (auto split: prod.splits option.splits)

lemma statements_frame:
  assumes "\<And>stmt s e s'. stmt \<in> set stmts \<Longrightarrow> stmt s = (e, s') \<Longrightarrow> s' k = s k"
    and "statements stmts s = (e, s')"
  shows "s' k = s k"
  using assms
proof (induction stmts arbitrary: s)
  case Nil
  then show ?case by simp
next
  case (Cons stmt stmts)
  obtain e1 s1 where st: "stmt s = (e1, s1)" by (cases "stmt s")
  have k1: "s1 k = s k" using Cons.prems(1) [of stmt s e1 s1] st by simp
  show ?case
  proof (cases e1)
    case None
    with st Cons.prems(2) have "statements stmts s1 = (e, s')" by simp
    then have "s' k = s1 k"
      using Cons.IH [of s1] Cons.prems(1) by auto
    with k1 show ?thesis by simp
  next
    case (Some a)
    with st Cons.prems(2) have "s' = s1" by simp
    with k1 show ?thesis by simp
  qed
qed

lemma delitem_frame: "delitem k opt = (e, opt') \<Longrightarrow> k' \<noteq> k \<Longrightarrow> opt' k' = opt k'"
  by (auto simp add: delitem_def split: option.splits)

lemma pad_to_matlab_frame:
  "pad_to_matlab lib k opt = (e, opt') \<Longrightarrow> k' \<noteq> k \<Longrightarrow> opt' k' = opt k'"
  by (auto simp add: pad_to_matlab_def getitem_def split: option.splits sum.splits)

lemma store_floats_frame:
  "store_floats lib k xs opt = (e, opt') \<Longrightarrow> k' \<noteq> k \<Longrightarrow> opt' k' = opt k'"
  by (auto simp add: store_floats_def split: sum.splits)

lemma delitem_None:
  "delitem k opt = (None, opt') \<Longrightarrow> k \<in> dom opt \<and> opt' = opt(k := None)"
  by (auto simp add: delitem_def split: option.splits)

lemma pad_to_matlab_None:
  "pad_to_matlab lib k opt = (None, opt') \<Longrightarrow>
     \<exists>pad padlist m. opt k = Some pad \<and> tolist lib pad = Inr padlist \<and>
       matlab_double lib padlist = Inr m \<and> opt' = opt(k \<mapsto> m)"
  by (auto simp add: pad_to_matlab_def getitem_def split: option.splits sum.splits)

lemma store_floats_None:
  "store_floats lib k xs opt = (None, opt') \<Longrightarrow>
     \<exists>m. matlab_double_floats lib xs = Inr m \<and> opt' = opt(k \<mapsto> m)"
  by (auto simp add: store_floats_def split: sum.splits)

text \<open>The two blocks of statements of \<open>biphase\<close> that modify \<^verbatim>\<open>opt\<close>.\<close>

lemma pads_frame:
  assumes "statements [pad_to_matlab lib ''PadLR1'', pad_to_matlab lib ''PadLR2''] opt = (e, opt')"
    and "k \<noteq> ''PadLR1''" "k \<noteq> ''PadLR2''"
  shows "opt' k = opt k"
proof (rule statements_frame [OF _ assms(1)])
  fix stmt s e s'
  assume "stmt \<in> set [pad_to_matlab lib ''PadLR1'', pad_to_matlab lib ''PadLR2'']"
    and "stmt s = (e, s')"
  then show "s' k = s k"
    using assms(2,3) pad_to_matlab_frame [of lib _ s e s' k] by auto
qed

lemma twf_frame:
  assumes "statements
             [delitem ''twf1'', delitem ''twf2'', store_floats lib ''twf1r'' a,
              store_floats lib ''twf2r'' b, store_floats lib ''twf1i'' c,
              store_floats lib ''twf2i'' d] opt = (e, opt')"
    and "k \<notin> {''twf1'', ''twf2'', ''twf1r'', ''twf2r'', ''twf1i'', ''twf2i''}"
  shows "opt' k = opt k"
proof (rule statements_frame [OF _ assms(1)])
  fix stmt s e s'
  assume "stmt \<in> set [delitem ''twf1'', delitem ''twf2'', store_floats lib ''twf1r'' a,
              store_floats lib ''twf2r'' b, store_floats lib ''twf1i'' c,
              store_floats lib ''twf2i'' d]"
    and "stmt s = (e, s')"
  then show "s' k = s k"
    using assms(2) delitem_frame [of _ s e s' k] store_floats_frame [of lib _ _ s e s' k]
    by auto
qed

lemma pads_None:
  assumes "statements [pad_to_matlab lib ''PadLR1'', pad_to_matlab lib ''PadLR2''] opt = (None, opt')"
  shows "\<exists>m1 m2. ''PadLR1'' \<in> dom opt \<and> ''PadLR2'' \<in> dom opt \<and>
           opt' = opt(''PadLR1'' \<mapsto> m1, ''PadLR2'' \<mapsto> m2)"
proof -
  from assms obtain o1 where
    1: "pad_to_matlab lib ''PadLR1'' opt = (None, o1)"
    and 2: "pad_to_matlab lib ''PadLR2'' o1 = (None, opt')"
    by (auto simp add: statements_Cons_None statements_Nil_None simp del: statements.simps)
  from pad_to_matlab_None [OF 1] obtain m1 where
    a: "''PadLR1'' \<in> dom opt" "o1 = opt(''PadLR1'' \<mapsto> m1)" by auto
  from pad_to_matlab_None [OF 2] obtain m2 where
    b: "''PadLR2'' \<in> dom o1" "opt' = o1(''PadLR2'' \<mapsto> m2)" by auto
  from a b show ?thesis by auto
qed

lemma twf_None:
  assumes "statements
             [delitem ''twf1'', delitem ''twf2'', store_floats lib ''twf1r'' a,
              store_floats lib ''twf2r'' b, store_floats lib ''twf1i'' c,
              store_floats lib ''twf2i'' d] opt = (None, opt')"
  shows "\<exists>m1 m2 m3 m4. ''twf1'' \<in> dom opt \<and> ''twf2'' \<in> dom opt \<and>
           opt' = opt(''twf1'' := None, ''twf2'' := None, ''twf1r'' \<mapsto> m1, ''twf2r'' \<mapsto> m2,
                      ''twf1i'' \<mapsto> m3, ''twf2i'' \<mapsto> m4)"
proof -
  from assms obtain o1 o2 o3 o4 o5 where
    1: "delitem ''twf1'' opt = (None, o1)"
    and 2: "delitem ''twf2'' o1 = (None, o2)"
    and 3: "store_floats lib ''twf1r'' a o2 = (None, o3)"
    and 4: "store_floats lib ''twf2r'' b o3 = (None, o4)"
    and 5: "store_floats lib ''twf1i'' c o4 = (None, o5)"
    and 6: "store_floats lib ''twf2i'' d o5 = (None, opt')"
    by (auto simp add: statements_Cons_None statements_Nil_None simp del: statements.simps)
  from delitem_None [OF 1] have a: "''twf1'' \<in> dom opt" "o1 = opt(''twf1'' := None)" by auto
  from delitem_None [OF 2] have b: "''twf2'' \<in> dom o1" "o2 = o1(''twf2'' := None)" by auto
  from store_floats_None [OF 3] obtain m1 where c: "o3 = o2(''twf1r'' \<mapsto> m1)" by auto
  from store_floats_None [OF 4] obtain m2 where d: "o4 = o3(''twf2r'' \<mapsto> m2)" by auto
  from store_floats_None [OF 5] obtain m3 where e: "o5 = o4(''twf1i'' \<mapsto> m3)" by auto
  from store_floats_None [OF 6] obtain m4 where f: "opt' = o5(''twf2i'' \<mapsto> m4)" by auto
  have "''twf2'' \<in> dom opt" using a b by (auto split: if_splits)
  with a b c d e f show ?thesis by blast
qed

text \<open>
  The ways \<open>biphase\<close> can end: before the first block of statements, in or right after it
  (while reading the two complex lists), in the second block or in the numerical part, or
  by returning.
\<close>

lemma biphase_outcome:
  "(\<exists>e. biphase lib sig1 sig2 fs f0 fr opt = (Inl e, opt))
   \<or> (\<exists>e e1 o1.
         statements [pad_to_matlab lib ''PadLR1'', pad_to_matlab lib ''PadLR2''] opt = (e1, o1)
         \<and> biphase lib sig1 sig2 fs f0 fr opt = (Inl e, o1))
   \<or> (\<exists>e o1 c1 c2 e2 o2.
         statements [pad_to_matlab lib ''PadLR1'', pad_to_matlab lib ''PadLR2''] opt = (None, o1)
         \<and> statements
             [delitem ''twf1'', delitem ''twf2'', store_floats lib ''twf1r'' (map fst c1),
              store_floats lib ''twf2r'' (map fst c2), store_floats lib ''twf1i'' (map snd c1),
              store_floats lib ''twf2i'' (map snd c2)] o1 = (e2, o2)
         \<and> biphase lib sig1 sig2 fs f0 fr opt = (Inl e, o2))
   \<or> (\<exists>o1 c1 c2 o2 rest.
         statements [pad_to_matlab lib ''PadLR1'', pad_to_matlab lib ''PadLR2''] opt = (None, o1)
         \<and> statements
             [delitem ''twf1'', delitem ''twf2'', store_floats lib ''twf1r'' (map fst c1),
              store_floats lib ''twf2r'' (map fst c2), store_floats lib ''twf1i'' (map snd c1),
              store_floats lib ''twf2i'' (map snd c2)] o1 = (None, o2)
         \<and> biphase lib sig1 sig2 fs f0 fr opt = (Inr (Str (name sig1) # rest), o2))"
  (is "?A \<or> ?B \<or> ?C \<or> ?D")
proof (cases "initialize lib")
  case (Some e)
  then have ?A by (simp add: biphase_def)
  then show ?thesis by blast
next
  case None
  note init = None
  show ?thesis
  proof (cases "tolist lib (signal sig1)")
    case (Inl e)
    with init have ?A by (simp add: biphase_def)
    then show ?thesis by blast
  next
    case (Inr l1)
    note l1 = Inr
    show ?thesis
    proof (cases "tolist lib (signal sig2)")
      case (Inl e)
      with init l1 have ?A by (simp add: biphase_def)
      then show ?thesis by blast
    next
      case (Inr l2)
      note l2 = Inr
      obtain e1 o1 where
        p: "statements [pad_to_matlab lib ''PadLR1'', pad_to_matlab lib ''PadLR2''] opt = (e1, o1)"
        by (cases "statements [pad_to_matlab lib ''PadLR1'', pad_to_matlab lib ''PadLR2''] opt")
      show ?thesis
      proof (cases e1)
        case (Some e)
        with init l1 l2 p have "biphase lib sig1 sig2 fs f0 fr opt = (Inl e, o1)"
          by (simp add: biphase_def)
        with p have ?B by blast
        then show ?thesis by blast
      next
        case None
        note p = p [unfolded None]
        show ?thesis
        proof (cases "complex_list lib o1 ''twf1''")
          case (Inl e)
          with init l1 l2 p have "biphase lib sig1 sig2 fs f0 fr opt = (Inl e, o1)"
            by (simp add: biphase_def)
          with p have ?B by blast
          then show ?thesis by blast
        next
          case (Inr c1)
          note c1 = Inr
          show ?thesis
          proof (cases "complex_list lib o1 ''twf2''")
            case (Inl e)
            with init l1 l2 p c1 have "biphase lib sig1 sig2 fs f0 fr opt = (Inl e, o1)"
              by (simp add: biphase_def)
            with p have ?B by blast
            then show ?thesis by blast
          next
            case (Inr c2)
            note c2 = Inr
            obtain e2 o2 where
              q: "statements
                    [delitem ''twf1'', delitem ''twf2'', store_floats lib ''twf1r'' (map fst c1),
                     store_floats lib ''twf2r'' (map fst c2), store_floats lib ''twf1i'' (map snd c1),
                     store_floats lib ''twf2i'' (map snd c2)] o1 = (e2, o2)"
              by (cases "statements
                    [delitem ''twf1'', delitem ''twf2'', store_floats lib ''twf1r'' (map fst c1),
                     store_floats lib ''twf2r'' (map fst c2), store_floats lib ''twf1i'' (map snd c1),
                     store_floats lib ''twf2i'' (map snd c2)] o1")
            show ?thesis
            proof (cases e2)
              case (Some e)
              with init l1 l2 p c1 c2 q have "biphase lib sig1 sig2 fs f0 fr opt = (Inl e, o2)"
                by (simp add: biphase_def Let_def del: statements.simps)
              with p q have ?C by blast
              then show ?thesis by blast
            next
              case None
              note q = q [unfolded None]
              show ?thesis
              proof (cases "biphase_numerics lib l1 l2 fs f0 fr o2")
                case (Inl e)
                with init l1 l2 p c1 c2 q have "biphase lib sig1 sig2 fs f0 fr opt = (Inl e, o2)"
                  by (simp add: biphase_def Let_def del: statements.simps)
                with p q have ?C by blast
                then show ?thesis by blast
              next
                case (Inr v)
                with init l1 l2 p c1 c2 q
                have "\<exists>rest. biphase lib sig1 sig2 fs f0 fr opt = (Inr (Str (name sig1) # rest), o2)"
                  by (simp add: biphase_def Let_def del: statements.simps)
                with p q have ?D by blast
                then show ?thesis by blast
              qed
            qed
          qed
        qed
      qed
    qed
  qed
qed

lemma biphase_frame:
  assumes "k \<notin> {''PadLR1'', ''PadLR2'', ''twf1'', ''twf2'', ''twf1r'', ''twf2r'', ''twf1i'', ''twf2i''}"
  shows "snd (biphase lib sig1 sig2 fs f0 fr opt) k = opt k"
proof -
  have pads: "o1 k = opt k"
    if "statements [pad_to_matlab lib ''PadLR1'', pad_to_matlab lib ''PadLR2''] opt = (e1, o1)"
    for e1 o1
    using pads_frame [OF that, of k] assms by simp
  have twf: "o2 k = o1 k"
    if "statements
             [delitem ''twf1'', delitem ''twf2'', store_floats lib ''twf1r'' a,
              store_floats lib ''twf2r'' b, store_floats lib ''twf1i'' c,
              store_floats lib ''twf2i'' d] o1 = (e2, o2)" for a b c d e2 o1 o2
    using twf_frame [OF that, of k] assms by simp
  from biphase_outcome [of lib sig1 sig2 fs f0 fr opt] show ?thesis
  proof (elim disjE exE conjE)
    fix e assume "biphase lib sig1 sig2 fs f0 fr opt = (Inl e, opt)"
    then show ?thesis by simp
  next
    fix e e1 o1
    assume p: "statements [pad_to_matlab lib ''PadLR1'', pad_to_matlab lib ''PadLR2''] opt = (e1, o1)"
      and r: "biphase lib sig1 sig2 fs f0 fr opt = (Inl e, o1)"
    show ?thesis using pads [OF p] r by simp
  next
    fix e o1 c1 c2 e2 o2
    assume p: "statements [pad_to_matlab lib ''PadLR1'', pad_to_matlab lib ''PadLR2''] opt = (None, o1)"
      and q: "statements
             [delitem ''twf1'', delitem ''twf2'', store_floats lib ''twf1r'' (map fst c1),
              store_floats lib ''twf2r'' (map fst c2), store_floats lib ''twf1i'' (map snd c1),
              store_floats lib ''twf2i'' (map snd c2)] o1 = (e2, o2)"
      and r: "biphase lib sig1 sig2 fs f0 fr opt = (Inl e, o2)"
    show ?thesis using pads [OF p] twf [OF q] r by simp
  next
    fix o1 c1 c2 o2 rest
    assume p: "statements [pad_to_matlab lib ''PadLR1'', pad_to_matlab lib ''PadLR2''] opt = (None, o1)"
      and q: "statements
             [delitem ''twf1'', delitem ''twf2'', store_floats lib ''twf1r'' (map fst c1),
              store_floats lib ''twf2r'' (map fst c2), store_floats lib ''twf1i'' (map snd c1),
              store_floats lib ''twf2i'' (map snd c2)] o1 = (None, o2)"
      and r: "biphase lib sig1 sig2 fs f0 fr opt = (Inr (Str (name sig1) # rest), o2)"
    show ?thesis using pads [OF p] twf [OF q] r by simp
  qed
qed

lemma biphase_returns:
  assumes "fst (biphase lib sig1 sig2 fs f0 fr opt) = Inr t"
  shows "\<exists>rest p1 p2 m1 m2 m3 m4.
           t = Str (name sig1) # rest \<and>
           {''PadLR1'', ''PadLR2'', ''twf1'', ''twf2''} \<subseteq> dom opt \<and>
           snd (biphase lib sig1 sig2 fs f0 fr opt) =
             opt(''PadLR1'' \<mapsto> p1, ''PadLR2'' \<mapsto> p2, ''twf1'' := None, ''twf2'' := None,
                 ''twf1r'' \<mapsto> m1, ''twf2r'' \<mapsto> m2, ''twf1i'' \<mapsto> m3, ''twf2i'' \<mapsto> m4)"
proof -
  from biphase_outcome [of lib sig1 sig2 fs f0 fr opt] assms
  obtain o1 c1 c2 o2 rest where
    p: "statements [pad_to_matlab lib ''PadLR1'', pad_to_matlab lib ''PadLR2''] opt = (None, o1)"
    and q: "statements
             [delitem ''twf1'', delitem ''twf2'', store_floats lib ''twf1r'' (map fst c1),
              store_floats lib ''twf2r'' (map fst c2), store_floats lib ''twf1i'' (map snd c1),
              store_floats lib ''twf2i'' (map snd c2)] o1 = (None, o2)"
    and r: "biphase lib sig1 sig2 fs f0 fr opt = (Inr (Str (name sig1) # rest), o2)"
    by (elim disjE exE conjE) simp_all
  from pads_None [OF p] obtain p1 p2 where
    pads: "''PadLR1'' \<in> dom opt" "''PadLR2'' \<in> dom opt"
      "o1 = opt(''PadLR1'' \<mapsto> p1, ''PadLR2'' \<mapsto> p2)" by blast
  from twf_None [OF q] obtain m1 m2 m3 m4 where
    twf: "''twf1'' \<in> dom o1" "''twf2'' \<in> dom o1"
      "o2 = o1(''twf1'' := None, ''twf2'' := None, ''twf1r'' \<mapsto> m1, ''twf2r'' \<mapsto> m2,
                      ''twf1i'' \<mapsto> m3, ''twf2i'' \<mapsto> m4)" by blast
  have keys: "''twf1'' \<in> dom opt" "''twf2'' \<in> dom opt"
    using twf(1,2) pads(3) by (auto split: if_splits)
  have t: "t = Str (name sig1) # rest" using assms r by simp
  have "snd (biphase lib sig1 sig2 fs f0 fr opt) =
             opt(''PadLR1'' \<mapsto> p1, ''PadLR2'' \<mapsto> p2, ''twf1'' := None, ''twf2'' := None,
                 ''twf1r'' \<mapsto> m1, ''twf2r'' \<mapsto> m2, ''twf1i'' \<mapsto> m3, ''twf2i'' \<mapsto> m4)"
    using r pads(3) twf(3) by simp
  with t pads(1,2) keys show ?thesis by blast
qed


lemmas compute_defs =
  moda_dynamic_bayesian_inference_def dynamic_bayesian_inference_def biphase_def
  bispectrum_analysis_def process_put_def Queue_put_def getitem_def delitem_def
  pad_to_matlab_def store_floats_def complex_list_def Let_def

lemma dom_after_updates:
  assumes "a \<in> dom m" "b \<in> dom m" "c \<noteq> a" "c \<noteq> b" "d \<noteq> a" "d \<noteq> b"
  shows "dom (m(a \<mapsto> v1, b \<mapsto> v2, c := None, d := None, e \<mapsto> v3, f \<mapsto> v4, g \<mapsto> v5, h \<mapsto> v6))
           = (dom m - {c, d}) \<union> {e, f, g, h}"
  using assms by auto



text \<open>
  For instance, when the MATLAB routine raises, \<^verbatim>\<open>_moda_dynamic_bayesian_inference\<close>
  puts nothing on the queue and the exception leaves it.
\<close>

lemma moda_dynamic_bayesian_inference_raises:
  "moda_dynamic_bayesian_inference
     (example_numerics\<lparr>full_bayesian := (\<lambda>sig1 sig2 args. Inl LibraryError)\<rparr>)
     [] (new_signal ''sigA'') (new_signal ''sigB'') example_params
   = (Some LibraryError, [], example_params)"
  by (simp add: compute_defs)

text \<open>
  C8 (amended). \<^verbatim>\<open>_moda_dynamic_bayesian_inference\<close>, \<^verbatim>\<open>_dynamic_bayesian_inference\<close> and
  \<^verbatim>\<open>_bispectrum_analysis\<close> leave the parameter object they are given as it was. \<^verbatim>\<open>_biphase\<close>
  does not: it changes its dictionary parameter \<^verbatim>\<open>opt\<close> in place. Whatever happens, the keys
  other than PadLR1, PadLR2, twf1, twf2, twf1r, twf2r, twf1i and twf2i keep their values;
  when the function returns, PadLR1, PadLR2, twf1 and twf2 were keys of \<^verbatim>\<open>opt\<close>, the keys
  of \<^verbatim>\<open>opt\<close> are then the former ones without twf1 and twf2 and with twf1r, twf2r, twf1i and
  twf2i, and the dictionary differs from the one passed in.
\<close>

theorem only_biphase_modifies_its_parameters:
  "snd (snd (moda_dynamic_bayesian_inference lib queue signal1 signal2 params)) = params
   \<and> snd (snd (dynamic_bayesian_inference lib queue signal1 signal2 params)) = params
   \<and> snd (bispectrum_analysis lib signal1 signal2 ba) = ba
   \<and> (\<forall>k. k \<notin> {''PadLR1'', ''PadLR2'', ''twf1'', ''twf2'', ''twf1r'', ''twf2r'', ''twf1i'', ''twf2i''}
        \<longrightarrow> snd (biphase lib signal1 signal2 fs f0 fr opt) k = opt k)
   \<and> (\<forall>t. fst (biphase lib signal1 signal2 fs f0 fr opt) = Inr t \<longrightarrow>
        {''PadLR1'', ''PadLR2'', ''twf1'', ''twf2''} \<subseteq> dom opt
        \<and> dom (snd (biphase lib signal1 signal2 fs f0 fr opt)) =
            (dom opt - {''twf1'', ''twf2''}) \<union> {''twf1r'', ''twf2r'', ''twf1i'', ''twf2i''}
        \<and> snd (biphase lib signal1 signal2 fs f0 fr opt) \<noteq> opt)"
proof (intro conjI allI impI)
  show "snd (snd (moda_dynamic_bayesian_inference lib queue signal1 signal2 params)) = params"
    by (simp add: moda_dynamic_bayesian_inference_def Let_def split: option.splits sum.splits)
  show "snd (snd (dynamic_bayesian_inference lib queue signal1 signal2 params)) = params"
    by (simp add: dynamic_bayesian_inference_def split: sum.splits)
  show "snd (bispectrum_analysis lib signal1 signal2 ba) = ba"
    by (simp add: bispectrum_analysis_def split: option.splits sum.splits)
next
  fix k
  assume "k \<notin> {''PadLR1'', ''PadLR2'', ''twf1'', ''twf2'', ''twf1r'', ''twf2r'', ''twf1i'', ''twf2i''}"
  then show "snd (biphase lib signal1 signal2 fs f0 fr opt) k = opt k"
    by (rule biphase_frame)
next
  fix t
  assume t: "fst (biphase lib signal1 signal2 fs f0 fr opt) = Inr t"
  from biphase_returns [OF t] obtain rest p1 p2 m1 m2 m3 m4 where
    "t = Str (name signal1) # rest"
    and keys: "{''PadLR1'', ''PadLR2'', ''twf1'', ''twf2''} \<subseteq> dom opt"
    and opt': "snd (biphase lib signal1 signal2 fs f0 fr opt) =
             opt(''PadLR1'' \<mapsto> p1, ''PadLR2'' \<mapsto> p2, ''twf1'' := None, ''twf2'' := None,
                 ''twf1r'' \<mapsto> m1, ''twf2r'' \<mapsto> m2, ''twf1i'' \<mapsto> m3, ''twf2i'' \<mapsto> m4)"
    by (elim exE conjE) (rule that)
  show "{''PadLR1'', ''PadLR2'', ''twf1'', ''twf2''} \<subseteq> dom opt" by (rule keys)
  show "dom (snd (biphase lib signal1 signal2 fs f0 fr opt)) =
            (dom opt - {''twf1'', ''twf2''}) \<union> {''twf1r'', ''twf2r'', ''twf1i'', ''twf2i''}"
    unfolding opt' by (rule dom_after_updates) (use keys in simp_all)
  show "snd (biphase lib signal1 signal2 fs f0 fr opt) \<noteq> opt"
  proof
    assume eq: "snd (biphase lib signal1 signal2 fs f0 fr opt) = opt"
    have "snd (biphase lib signal1 signal2 fs f0 fr opt) ''twf1'' = None"
      unfolding opt' by simp
    then have "opt ''twf1'' = None" unfolding eq .
    moreover have "''twf1'' \<in> dom opt" using keys by simp
    ultimately show False by auto
  qed
qed

theorem only_biphase_modifies_its_parameters_witness:
  "fst (biphase example_numerics (new_signal ''sigA'') (new_signal ''sigB'') 10 1 [2, 3] example_opt)
     = Inr [Str ''sigA'', Num 2, Num 3, Val 1, Val 2, Val 3, Val 4, Val 5, Val 6, Val 7, Val 8]
   \<and> ''nv'' \<notin> {''PadLR1'', ''PadLR2'', ''twf1'', ''twf2'', ''twf1r'', ''twf2r'', ''twf1i'', ''twf2i''}
   \<and> snd (biphase example_numerics (new_signal ''sigA'') (new_signal ''sigB'') 10 1 [2, 3]
        example_opt) ''nv'' = example_opt ''nv''
   \<and> dom (snd (biphase example_numerics (new_signal ''sigA'') (new_signal ''sigB'') 10 1 [2, 3]
        example_opt))
      = (dom example_opt - {''twf1'', ''twf2''}) \<union> {''twf1r'', ''twf2r'', ''twf1i'', ''twf2i''}"
proof -
  let ?b = "biphase example_numerics (new_signal ''sigA'') (new_signal ''sigB'') 10 1 [2, 3] example_opt"
  have r: "fst ?b = Inr [Str ''sigA'', Num 2, Num 3, Val 1, Val 2, Val 3, Val 4, Val 5, Val 6,
      Val 7, Val 8]"
    by (simp add: compute_defs)
  have k: "''nv'' \<notin> {''PadLR1'', ''PadLR2'', ''twf1'', ''twf2'', ''twf1r'', ''twf2r'', ''twf1i'', ''twf2i''}"
    by simp
  note inst = only_biphase_modifies_its_parameters
    [of example_numerics "[]" "new_signal ''sigA''" "new_signal ''sigB''" example_params
        example_ba_params 10 1 "[2, 3]" example_opt]
  note frame = inst [THEN conjunct2, THEN conjunct2, THEN conjunct2, THEN conjunct1,
    rule_format, OF k]
  note returned = inst [THEN conjunct2, THEN conjunct2, THEN conjunct2, THEN conjunct2,
    rule_format, OF r]
  from returned have d: "dom (snd ?b)
      = (dom example_opt - {''twf1'', ''twf2''}) \<union> {''twf1r'', ''twf2r'', ''twf1i'', ''twf2i''}"
    by (rule conjunct2 [THEN conjunct1])
  show ?thesis
    by (intro conjI) (rule r, rule k, rule frame, rule d)
qed

text \<open>
  C8 as stated fails: \<^verbatim>\<open>_biphase\<close> removes the key twf1 from the dictionary it is given
  and adds the key twf1r.
\<close>

theorem biphase_modifies_opt_counterexample:
  "example_opt ''twf1'' = Some 3
   \<and> snd (biphase example_numerics (new_signal ''sigA'') (new_signal ''sigB'') 10 1 [2, 3]
        example_opt) ''twf1'' = None
   \<and> example_opt ''twf1r'' = None
   \<and> snd (biphase example_numerics (new_signal ''sigA'') (new_signal ''sigB'') 10 1 [2, 3]
        example_opt) ''twf1r'' = Some 3"
  by (simp add: compute_defs)

section \<open>Properties of dispatch\<close>

lemma spawn_workers_exact:
  "map Some (spawn_workers h ws) = filter (\<lambda>r. r \<noteq> None) (map (spawn_process h) ws)"
  by (induction ws) (auto split: option.splits)

lemma spawn_workers_length:
  "length (spawn_workers h ws) = length (filter (\<lambda>w. spawn_process h w \<noteq> None) ws)"
  by (induction ws) (auto split: option.splits)

lemma spawn_workers_cpu_count:
  "spawn_workers (h\<lparr>cpu_count := n\<rparr>) ws = spawn_workers h ws"
  by (induction ws) (auto split: option.splits)

lemma still_running_none: "still_running [] workers = workers"
  by (simp add: still_running_def)

lemma running_during_nonempty: "running_during h exited acc ws \<noteq> []"
  by (cases ws) simp_all

lemma running_during_last:
  "last (running_during h (\<lambda>item. []) acc ws) = acc @ spawn_workers h ws"
  by (induction ws arbitrary: acc)
    (simp_all add: running_during_nonempty still_running_none split: option.splits)

text \<open>
  The cap can hold by the schedule alone, without the dispatcher doing anything for it: on
  a host with two CPUs, the first of three workers has exited when the third is started.
\<close>

lemma cap_respected_by_schedule:
  "cap_respected \<lparr>cpu_count = 2, spawn_process = (\<lambda>w. Some \<lparr>pid = 500 + w\<rparr>)\<rparr>
     (\<lambda>item. if item = 3 then [501] else []) [1, 2, 3::nat]"
  by (simp add: cap_respected_def still_running_def)

text \<open>
  C9 (amended). Dispatching a batch enforces no cap on the workers that run concurrently.
  The batch holds the items submitted, and the workers started are exactly those of the
  items whose process started, one per such item and in the order of the items: a spawn
  that fails does not prevent the others. The number of CPUs of the host has no influence
  on the batch. No worker is waited for: as long as none has exited, the workers running
  when \<open>dispatch\<close> returns are all the workers of the batch, so that whenever more processes
  start than the host has CPUs, the cap is exceeded during the dispatch.
\<close>

theorem dispatch_enforces_no_cap:
  "submitted (dispatch h ws) = ws
   \<and> map Some (handles (dispatch h ws)) = filter (\<lambda>r. r \<noteq> None) (map (spawn_process h) ws)
   \<and> dispatch (h\<lparr>cpu_count := n\<rparr>) ws = dispatch h ws
   \<and> last (running_during h (\<lambda>item. []) [] ws) = handles (dispatch h ws)
   \<and> (cpu_count h < length (filter (\<lambda>w. spawn_process h w \<noteq> None) ws) \<longrightarrow>
        \<not> cap_respected h (\<lambda>item. []) ws)"
proof (intro conjI impI)
  show "submitted (dispatch h ws) = ws"
    by (simp add: dispatch_def)
  show "map Some (handles (dispatch h ws)) = filter (\<lambda>r. r \<noteq> None) (map (spawn_process h) ws)"
    by (simp add: dispatch_def spawn_workers_exact)
  show "dispatch (h\<lparr>cpu_count := n\<rparr>) ws = dispatch h ws"
    by (simp add: dispatch_def spawn_workers_cpu_count)
  show fin: "last (running_during h (\<lambda>item. []) [] ws) = handles (dispatch h ws)"
    by (simp add: dispatch_def running_during_last)
  assume more: "cpu_count h < length (filter (\<lambda>w. spawn_process h w \<noteq> None) ws)"
  have "last (running_during h (\<lambda>item. []) [] ws) \<in> set (running_during h (\<lambda>item. []) [] ws)"
    by (rule last_in_set) (rule running_during_nonempty)
  then have "handles (dispatch h ws) \<in> set (running_during h (\<lambda>item. []) [] ws)"
    by (simp only: fin)
  moreover have "\<not> length (handles (dispatch h ws)) \<le> cpu_count h"
    using more by (simp add: dispatch_def spawn_workers_length)
  ultimately show "\<not> cap_respected h (\<lambda>item. []) ws"
    by (auto simp add: cap_respected_def list_all_iff)
qed

theorem dispatch_enforces_no_cap_witness:
  "cpu_count \<lparr>cpu_count = 2, spawn_process = (\<lambda>w. if w = 2 then None else Some \<lparr>pid = 500 + w\<rparr>)\<rparr>
     < length (filter (\<lambda>w. spawn_process
         \<lparr>cpu_count = 2, spawn_process = (\<lambda>w. if w = 2 then None else Some \<lparr>pid = 500 + w\<rparr>)\<rparr> w \<noteq> None)
         [1, 2, 3, 4::nat])
   \<and> handles (dispatch
        \<lparr>cpu_count = 2, spawn_process = (\<lambda>w. if w = 2 then None else Some \<lparr>pid = 500 + w\<rparr>)\<rparr>
        [1, 2, 3, 4::nat]) = [\<lparr>pid = 501\<rparr>, \<lparr>pid = 503\<rparr>, \<lparr>pid = 504\<rparr>]
   \<and> last (running_during
        \<lparr>cpu_count = 2, spawn_process = (\<lambda>w. if w = 2 then None else Some \<lparr>pid = 500 + w\<rparr>)\<rparr>
        (\<lambda>item. []) [] [1, 2, 3, 4::nat]) = [\<lparr>pid = 501\<rparr>, \<lparr>pid = 503\<rparr>, \<lparr>pid = 504\<rparr>]
   \<and> \<not> cap_respected
        \<lparr>cpu_count = 2, spawn_process = (\<lambda>w. if w = 2 then None else Some \<lparr>pid = 500 + w\<rparr>)\<rparr>
        (\<lambda>item. []) [1, 2, 3, 4::nat]"
  using dispatch_enforces_no_cap
    [of "\<lparr>cpu_count = 2, spawn_process = (\<lambda>w. if w = 2 then None else Some \<lparr>pid = 500 + w\<rparr>)\<rparr>"
        "[1, 2, 3, 4::nat]" 2]
  by (simp add: dispatch_def)

text \<open>
  C9 as stated fails: on a host with two CPUs, the dispatch of a batch of three items has
  started three workers by the time it returns; none of them has exited, so that three
  workers run concurrently, one more than the host has CPUs.
\<close>

theorem dispatch_exceeds_cpu_count_counterexample:
  "running_during \<lparr>cpu_count = 2, spawn_process = (\<lambda>w. Some \<lparr>pid = 500 + w\<rparr>)\<rparr> (\<lambda>item. [])
      [] [1, 2, 3::nat]
     = [[], [\<lparr>pid = 501\<rparr>], [\<lparr>pid = 501\<rparr>, \<lparr>pid = 502\<rparr>], [\<lparr>pid = 501\<rparr>, \<lparr>pid = 502\<rparr>, \<lparr>pid = 503\<rparr>]]
   \<and> \<not> cap_respected \<lparr>cpu_count = 2, spawn_process = (\<lambda>w. Some \<lparr>pid = 500 + w\<rparr>)\<rparr> (\<lambda>item. [])
        [1, 2, 3::nat]"
  by (simp add: cap_respected_def still_running_def)

end
